theory Spec2Isabelle
  imports Complex_Main "HOL-Library.Log_Nat" "HOL-Library.Multiset"
begin

text \<open>
  A command-line scorer of GitHub repositories. For each URL of an input file it
  resolves owner and repository (\<open>parseGithubUrl\<close>), fetches the contributors, computes
  the bus factor (\<open>calculateBusFactor\<close>) and three further scores, combines them into a
  net score (\<open>calculateNetScore\<close>), and appends one record to an output file
  (\<open>calculateMetricsForRepo\<close>, \<open>parseUrlFile\<close>). The definitions come first, each next
  to the source it renders; the properties follow.
\<close>

section \<open>JavaScript numbers\<close>

text \<open>
  A JavaScript \<^verbatim>\<open>number\<close> is an IEEE 754 binary64 value. The finite ones are
  rationals; \<open>NaN\<close> and the two infinities are separate values (the sign of zero is
  not kept: no operation below tells \<open>-0\<close> from \<open>0\<close>).

  Counts of contributions are non-negative integers and are kept as \<open>nat\<close>: sums and
  differences of integers below \<open>2^53\<close> are exact in binary64. Division and the
  multiplication by 100 are not exact; their results are rounded to the nearest binary64
  value, ties to even, by \<open>fl\<close>. Overflow and subnormal results are not modelled:
  a quotient of two positive integers below \<open>2^53\<close> lies between \<open>2^-53\<close> and
  \<open>2^53\<close>, and its product with 100 below \<open>2^60\<close>.
\<close>

datatype jsnum = NaN | NegInf | Fin rat | PosInf

definition pow2 :: "int \<Rightarrow> rat" where
  "pow2 k = (if 0 \<le> k then 2 ^ nat k else 1 / 2 ^ nat (- k))"

definition round_half_even :: "rat \<Rightarrow> int" where
  "round_half_even r =
     (let f = \<lfloor>r\<rfloor>; d = r - of_int f
      in if d < 1 / 2 then f
         else if 1 / 2 < d then f + 1
         else if even f then f else f + 1)"

text \<open>\<open>ilog2 a\<close> is the binary exponent of a positive rational: \<open>2^e \<le> a < 2^(e+1)\<close>.\<close>

definition ilog2 :: "rat \<Rightarrow> int" where
  "ilog2 a = (case quotient_of a of (p, q) \<Rightarrow>
     (let d = bitlen p - bitlen q in if pow2 d \<le> a then d else d - 1))"

text \<open>Rounding to 53 significant bits, nearest, ties to even.\<close>

definition fl :: "rat \<Rightarrow> rat" where
  "fl x = (if x = 0 then 0
     else (let a = \<bar>x\<bar>; u = pow2 (ilog2 a - 52)
           in sgn x * of_int (round_half_even (a / u)) * u))"

text \<open>\<^verbatim>\<open>a / b\<close> on two integer-valued numbers: \<^verbatim>\<open>0 / 0\<close> is \<open>NaN\<close>, nothing is thrown.\<close>

definition js_div :: "nat \<Rightarrow> nat \<Rightarrow> jsnum" where
  "js_div a b =
     (if b = 0 then (if a = 0 then NaN else PosInf)
      else Fin (fl (of_nat a / of_nat b)))"

text \<open>\<^verbatim>\<open>x * 100\<close>.\<close>

fun js_times_100 :: "jsnum \<Rightarrow> jsnum" where
  "js_times_100 NaN = NaN"
| "js_times_100 NegInf = NegInf"
| "js_times_100 PosInf = PosInf"
| "js_times_100 (Fin q) = Fin (fl (q * 100))"

text \<open>\<^verbatim>\<open>x >= y\<close>: false as soon as one side is \<open>NaN\<close>.\<close>

fun js_ge :: "jsnum \<Rightarrow> jsnum \<Rightarrow> bool" where
  "js_ge NaN y = False"
| "js_ge x NaN = False"
| "js_ge PosInf y = True"
| "js_ge x NegInf = True"
| "js_ge (Fin a) (Fin b) = (b \<le> a)"
| "js_ge (Fin a) PosInf = False"
| "js_ge NegInf y = False"

definition js_le :: "jsnum \<Rightarrow> jsnum \<Rightarrow> bool" where
  "js_le x y = js_ge y x"

section \<open>Bus factor (calculateBusFactor)\<close>

text \<open>
  A contributor as the contributors endpoint returns it; only \<^verbatim>\<open>contributions\<close> is
  read by the calculator.
\<close>

record contributor =
  login :: string
  contributions :: nat

text \<open>The comparator \<^verbatim>\<open>(a, b) => b.contributions - a.contributions\<close>.\<close>

definition compareFn :: "contributor \<Rightarrow> contributor \<Rightarrow> int" where
  "compareFn a b = int (contributions b) - int (contributions a)"

text \<open>
  \<^verbatim>\<open>Array.prototype.sort\<close> with a comparator: a stable sort, in place. \<open>x\<close> goes
  before the first element it does not have to follow (\<open>cmp x y \<le> 0\<close>).
\<close>

fun insert_sorted :: "('a \<Rightarrow> 'a \<Rightarrow> int) \<Rightarrow> 'a \<Rightarrow> 'a list \<Rightarrow> 'a list" where
  "insert_sorted cmp x [] = [x]"
| "insert_sorted cmp x (y # ys) =
     (if cmp x y \<le> 0 then x # y # ys else y # insert_sorted cmp x ys)"

definition array_sort :: "('a \<Rightarrow> 'a \<Rightarrow> int) \<Rightarrow> 'a list \<Rightarrow> 'a list" where
  "array_sort cmp xs = foldr (insert_sorted cmp) xs []"

text \<open>\<^verbatim>\<open>(commitSum / totalCommits) * 100\<close>.\<close>

definition contributionPercentage :: "nat \<Rightarrow> nat \<Rightarrow> jsnum" where
  "contributionPercentage commitSum totalCommits = js_times_100 (js_div commitSum totalCommits)"

text \<open>The \<^verbatim>\<open>for ... of\<close> loop with its \<^verbatim>\<open>break\<close>.\<close>

fun busFactor_loop :: "nat \<Rightarrow> jsnum \<Rightarrow> contributor list \<Rightarrow> nat \<Rightarrow> nat \<Rightarrow> nat" where
  "busFactor_loop totalCommits threshold [] commitSum busFactor = busFactor"
| "busFactor_loop totalCommits threshold (c # rest) commitSum busFactor =
     (let commitSum' = commitSum + contributions c;
          busFactor' = busFactor + 1
      in if js_ge (contributionPercentage commitSum' totalCommits) threshold
         then busFactor'
         else busFactor_loop totalCommits threshold rest commitSum' busFactor')"

text \<open>
  \<open>calculateBusFactor\<close> returns the number it computes and, as second component, the
  contents of the caller's array after the call: \<^verbatim>\<open>contributors.sort(...)\<close> sorts the
  argument itself and returns that same array.
\<close>

definition calculateBusFactor :: "contributor list \<Rightarrow> jsnum \<Rightarrow> nat \<times> contributor list" where
  "calculateBusFactor contributors threshold =
     (let totalCommits = foldl (\<lambda>acc c. acc + contributions c) 0 contributors;
          sortedContributors = array_sort compareFn contributors
      in (busFactor_loop totalCommits threshold sortedContributors 0 0, sortedContributors))"

text \<open>
  The words of the specification, for comparison: the total of all contributions, the
  contributions of the \<open>k\<close> top contributors in the sorted order, whether the share of
  those \<open>k\<close> reaches a threshold as the code computes it (in binary64), and the same
  share computed exactly.
\<close>

definition total_commits :: "contributor list \<Rightarrow> nat" where
  "total_commits contributors = sum_list (map contributions contributors)"

definition top_commits :: "contributor list \<Rightarrow> nat \<Rightarrow> nat" where
  "top_commits contributors k =
     sum_list (map contributions (take k (array_sort compareFn contributors)))"


definition exact_share :: "contributor list \<Rightarrow> nat \<Rightarrow> rat" where
  "exact_share contributors k =
     of_nat (top_commits contributors k) * 100 / of_nat (total_commits contributors)"

text \<open>
  Whether the exact share of the \<open>k\<close> top contributors reaches the threshold, and where
  rounding cannot change the decision of the loop: every sum is exact (the total is at
  most \<open>2^53\<close>), and for every number \<open>k\<close> of top contributors the share is computed
  without rounding error, or it lies clear of the threshold, above or below, by the two
  relative rounding errors of \<open>2^-53\<close> that the division and the multiplication can add.
\<close>

definition share_reaches :: "contributor list \<Rightarrow> jsnum \<Rightarrow> nat \<Rightarrow> bool" where
  "share_reaches contributors threshold k =
     js_ge (Fin (exact_share contributors k)) threshold"

definition rounding_safe :: "contributor list \<Rightarrow> jsnum \<Rightarrow> bool" where
  "rounding_safe contributors threshold =
     (int (total_commits contributors) \<le> 2 ^ 53 \<and>
      list_all
        (\<lambda>k. contributionPercentage (top_commits contributors k) (total_commits contributors) =
               Fin (exact_share contributors k)
             \<or> js_ge (Fin (exact_share contributors k * (1 - 1 / 2 ^ 53) ^ 2)) threshold
             \<or> \<not> js_ge (Fin (exact_share contributors k * (1 + 1 / 2 ^ 53) ^ 2)) threshold)
        [1..<Suc (length contributors)])"

text \<open>The contributors of the end-to-end scenario, least active first.\<close>

definition octocat_contributors :: "contributor list" where
  "octocat_contributors =
     [\<lparr>login = ''b'', contributions = 10\<rparr>, \<lparr>login = ''a'', contributions = 90\<rparr>]"

text \<open>Descending by contribution count.\<close>

definition descending :: "contributor list \<Rightarrow> bool" where
  "descending cs = sorted_wrt (\<lambda>a b. contributions b \<le> contributions a) cs"

section \<open>Net score (calculateNetScore)\<close>

text \<open>
  Modelled from the spec: \<^verbatim>\<open>calculateNetScore\<close> (module \<^verbatim>\<open>./netscore\<close>, not among the
  source files). The spec gives a fixed linear weighting of the four component scores
  whose weights sum to 1; the weights themselves are a policy constant the spec does
  not give, so they are a parameter. Scores are taken as exact rationals.
\<close>

record weights =
  wBusFactor :: rat
  wRampUp :: rat
  wCorrectness :: rat
  wResponsiveness :: rat

definition valid_weights :: "weights \<Rightarrow> bool" where
  "valid_weights w =
     (0 \<le> wBusFactor w \<and> 0 \<le> wRampUp w \<and> 0 \<le> wCorrectness w \<and> 0 \<le> wResponsiveness w \<and>
      wBusFactor w + wRampUp w + wCorrectness w + wResponsiveness w = 1)"

definition calculateNetScore :: "weights \<Rightarrow> rat \<Rightarrow> rat \<Rightarrow> rat \<Rightarrow> rat \<Rightarrow> rat" where
  "calculateNetScore w busFactor rampUp correctness responsiveness =
     wBusFactor w * busFactor + wRampUp w * rampUp +
     wCorrectness w * correctness + wResponsiveness w * responsiveness"

definition unit_score :: "rat \<Rightarrow> bool" where
  "unit_score x = (0 \<le> x \<and> x \<le> 1)"

section \<open>Repository resolver (parseGithubUrl)\<close>

text \<open>
  The regular expression \<^verbatim>\<open>/https:\/\/github\.com\/([^/]+)\/([^/]+)/\<close> has no
  anchors. \<open>match_at\<close> matches it at the start of a string: the literal prefix, a
  longest non-empty run without a slash, a slash, and a longest non-empty run without a
  slash. (The first group is greedy and must be followed by a slash, so it is the whole
  run up to the next slash; the second is greedy and followed by nothing.)
\<close>

definition github_prefix :: string where
  "github_prefix = ''https://github.com/''"

definition not_slash :: "char \<Rightarrow> bool" where
  "not_slash c = (c \<noteq> CHR ''/'')"

definition match_at :: "string \<Rightarrow> (string \<times> string) option" where
  "match_at s =
     (if take (length github_prefix) s = github_prefix then
        (let rest = drop (length github_prefix) s;
             g1 = takeWhile not_slash rest
         in if g1 = [] then None
            else (case dropWhile not_slash rest of
                    [] \<Rightarrow> None
                  | slash # rest2 \<Rightarrow>
                      (let g2 = takeWhile not_slash rest2
                       in if g2 = [] then None else Some (g1, g2))))
      else None)"

text \<open>\<^verbatim>\<open>url.match(re)\<close> for a regular expression without the \<^verbatim>\<open>g\<close> flag: the leftmost match.\<close>

fun regex_match :: "string \<Rightarrow> (string \<times> string) option" where
  "regex_match [] = match_at []"
| "regex_match (c # cs) =
     (case match_at (c # cs) of Some g \<Rightarrow> Some g | None \<Rightarrow> regex_match cs)"

record repoInfo =
  owner :: string
  repo :: string

definition parseGithubUrl :: "string \<Rightarrow> repoInfo option" where
  "parseGithubUrl url =
     (case regex_match url of
        None \<Rightarrow> None
      | Some (g1, g2) \<Rightarrow>
          if g1 \<noteq> [] \<and> g2 \<noteq> [] then Some \<lparr>owner = g1, repo = g2\<rparr> else None)"

text \<open>
  The shape the specification names, \<^verbatim>\<open>https://github.com/{owner}/{repo}\<close> with two
  non-empty segments free of slashes and nothing before or after.
\<close>

definition exact_form :: "string \<Rightarrow> bool" where
  "exact_form s =
     (take (length github_prefix) s = github_prefix \<and>
      (let rest = drop (length github_prefix) s;
           seg1 = takeWhile not_slash rest;
           seg2 = drop 1 (dropWhile not_slash rest)
       in seg1 \<noteq> [] \<and> seg2 \<noteq> [] \<and> list_all not_slash seg2))"

text \<open>
  What the expression finds anywhere in a string: the prefix, a non-empty segment, a
  slash and one more character that is not a slash.
\<close>

definition contains_repo_path :: "string \<Rightarrow> bool" where
  "contains_repo_path s =
     (\<exists>pre seg c post. s = pre @ github_prefix @ seg @ CHR ''/'' # c # post \<and>
        seg \<noteq> [] \<and> list_all not_slash seg \<and> not_slash c)"

section \<open>Orchestrator (calculateMetricsForRepo, parseUrlFile)\<close>

text \<open>
  The collaborators the orchestrator calls are not among the source files
  (\<^verbatim>\<open>getGithubLink\<close>, \<^verbatim>\<open>API.fetchContributors\<close>, \<^verbatim>\<open>calculateRampUp\<close>,
  \<^verbatim>\<open>calculateCorrectness\<close>, \<^verbatim>\<open>calculateResponsiveMaintener\<close>, \<^verbatim>\<open>axios.get\<close>, the
  clock): they are parameters, gathered in an environment. A collaborator that awaits
  the network reads and changes a world \<open>'w\<close> and either throws (\<open>Inl\<close>, carrying the
  text that \<^verbatim>\<open>${error}\<close> renders) or returns (\<open>Inr\<close>).
\<close>

type_synonym js_error = string

text \<open>
  What happens around the output file, in the order it happens: \<open>Begin url\<close> is the
  moment the loop of \<open>parseUrlFile\<close> calls \<^verbatim>\<open>calculateMetricsForRepo(url)\<close>,
  \<open>Append payload\<close> a completed \<^verbatim>\<open>fs.appendFileSync\<close>, and \<open>Truncate\<close> the moment the
  \<^verbatim>\<open>fs.writeFile(..., '')\<close> of \<open>parseUrlFile\<close> takes effect and empties the file.
\<close>

datatype file_event = Begin string | Append string | Truncate

record 'w state =
  world :: 'w
  console :: "string list"
  journal :: "file_event list"
  pending :: "nat option"

text \<open>
  \<open>console\<close> is what \<^verbatim>\<open>console.log\<close> and \<^verbatim>\<open>console.error\<close> have printed and
  \<open>journal\<close> the events of the output file so far. \<^verbatim>\<open>fs.writeFile\<close> is not awaited: its
  truncation takes effect at a moment the program does not choose. \<open>pending = Some k\<close>
  says that a truncation has been issued and takes effect once \<open>k\<close> more payloads have
  been appended; \<open>None\<close> that none is under way.
\<close>

text \<open>The payloads appended so far, and the content of the file after some events.\<close>

fun payloads :: "file_event list \<Rightarrow> string list" where
  "payloads [] = []"
| "payloads (Append p # es) = p # payloads es"
| "payloads (e # es) = payloads es"

definition appended :: "'w state \<Rightarrow> string list" where
  "appended s = payloads (journal s)"

fun file_content :: "string \<Rightarrow> file_event list \<Rightarrow> string" where
  "file_content c [] = c"
| "file_content c (Append p # es) = file_content (c @ p) es"
| "file_content c (Truncate # es) = file_content [] es"
| "file_content c (Begin u # es) = file_content c es"

text \<open>The timer's result, \<^verbatim>\<open>{output, time}\<close>.\<close>

record 'a timed =
  output' :: 'a
  time :: rat

record 'w env =
  getGithubLink :: "string \<Rightarrow> string"
  fetchContributors :: "string \<Rightarrow> string \<Rightarrow> 'w \<Rightarrow> (js_error + contributor list) \<times> 'w"
  calculateRampUp :: "string \<Rightarrow> string \<Rightarrow> 'w \<Rightarrow> (js_error + rat) \<times> 'w"
  axios_get_license :: "string \<Rightarrow> string \<Rightarrow> 'w \<Rightarrow> (js_error + string) \<times> 'w"
  calculateCorrectness :: "string \<Rightarrow> string \<Rightarrow> 'w \<Rightarrow> (js_error + rat) \<times> 'w"
  calculateResponsiveMaintener :: "string \<Rightarrow> string \<Rightarrow> 'w \<Rightarrow> (js_error + rat) \<times> 'w"
  now :: "'w \<Rightarrow> rat \<times> 'w"
  netscore_weights :: weights
  toPrecision5 :: "rat \<Rightarrow> string"

text \<open>
  \<open>axios_get_license\<close> stands for \<^verbatim>\<open>(await axios.get(.../license)).data.license\<close>, as
  the text a template literal renders it to; \<open>toPrecision5 x\<close> for the text of
  \<^verbatim>\<open>${Number(x.toPrecision(5))}\<close>, whose decimal formatting is not modelled.
\<close>

definition lift_io :: "('w \<Rightarrow> (js_error + 'a) \<times> 'w) \<Rightarrow> 'w state \<Rightarrow> (js_error + 'a) \<times> 'w state" where
  "lift_io f s = (case f (world s) of (r, w') \<Rightarrow> (r, s\<lparr>world := w'\<rparr>))"

text \<open>Sequencing of awaited steps: a throw skips what follows.\<close>

definition await_then ::
  "('s \<Rightarrow> (js_error + 'a) \<times> 's) \<Rightarrow> ('a \<Rightarrow> 's \<Rightarrow> (js_error + 'b) \<times> 's) \<Rightarrow> 's \<Rightarrow> (js_error + 'b) \<times> 's" where
  "await_then m f s = (case m s of (Inl e, s') \<Rightarrow> (Inl e, s') | (Inr v, s') \<Rightarrow> f v s')"

definition returns :: "'a \<Rightarrow> 's \<Rightarrow> (js_error + 'a) \<times> 's" where
  "returns v s = (Inr v, s)"

text \<open>
  Modelled from the spec: \<^verbatim>\<open>functionTimer\<close> (module \<^verbatim>\<open>./function-timer\<close>, not among
  the source files). It runs the computation once, reads the clock before and after,
  and returns the output with the elapsed time; a throw of the computation propagates
  unchanged and no output is produced.
\<close>

definition functionTimer ::
  "'w env \<Rightarrow> ('w state \<Rightarrow> (js_error + 'a) \<times> 'w state) \<Rightarrow> 'w state \<Rightarrow> (js_error + 'a timed) \<times> 'w state" where
  "functionTimer env f s =
     (case now env (world s) of (t0, w0) \<Rightarrow>
        (case f (s\<lparr>world := w0\<rparr>) of
           (Inl e, s1) \<Rightarrow> (Inl e, s1)
         | (Inr v, s1) \<Rightarrow>
             (case now env (world s1) of (t1, w1) \<Rightarrow>
                (Inr \<lparr>output' = v, time = t1 - t0\<rparr>, s1\<lparr>world := w1\<rparr>))))"

definition fetchRepoLicense :: "'w env \<Rightarrow> string \<Rightarrow> string \<Rightarrow> 'w state \<Rightarrow> (js_error + string) \<times> 'w state" where
  "fetchRepoLicense env ow rp s =
     (case axios_get_license env ow rp (world s) of
        (Inr license, w') \<Rightarrow> (Inr license, s\<lparr>world := w'\<rparr>)
      | (Inl error, w') \<Rightarrow>
          (Inl error,
           s\<lparr>world := w',
             console := console s @
               [''ERROR! Failed to retrieve license information for '' @ ow @ ''/'' @ rp @
                '': '' @ error]\<rparr>))"

text \<open>The template literal of the report, character by character.\<close>

definition report ::
  "'w env \<Rightarrow> string \<Rightarrow> rat timed \<Rightarrow> rat timed \<Rightarrow> rat timed \<Rightarrow> rat timed \<Rightarrow> rat timed \<Rightarrow>
   string timed \<Rightarrow> string" where
  \<open>report env url netScore rampUpScore correctness busFactor maintainResponsiveness
      retrievedLicense =
     ''{\<newline>'' @
     ''    "URL": "'' @ url @ ''", \<newline>'' @
     ''    "NetScore": "'' @ toPrecision5 env (output' netScore) @ ''", \<newline>'' @
     ''    "NetScore_Latency": '' @ toPrecision5 env (time netScore) @ '', \<newline>'' @
     ''    "RampUp": '' @ toPrecision5 env (output' rampUpScore) @ '', \<newline>'' @
     ''    "RampUp_Latency": '' @ toPrecision5 env (time rampUpScore) @ '', \<newline>'' @
     ''    "Correctness": '' @ toPrecision5 env (output' correctness) @ '', \<newline>'' @
     ''    "Correctness_Latency": '' @ toPrecision5 env (time correctness) @ '', \<newline>'' @
     ''    "BusFactor": '' @ toPrecision5 env (output' busFactor) @ '', \<newline>'' @
     ''    "BusFactor_Latency": '' @ toPrecision5 env (time busFactor) @ '', \<newline>'' @
     ''    "ResponsiveMaintainer": '' @ toPrecision5 env (output' maintainResponsiveness) @
       '', \<newline>'' @
     ''    "ResponsiveMaintainer_Latency": '' @ toPrecision5 env (time maintainResponsiveness) @
       '', \<newline>'' @
     ''    "License": "'' @ output' retrievedLicense @ ''", \<newline>'' @
     ''    "License_Latency": '' @ toPrecision5 env (time retrievedLicense) @ ''\<newline>'' @
     ''}''\<close>

text \<open>
  The body of the \<^verbatim>\<open>try\<close> block. \<^verbatim>\<open>calculateBusFactor\<close>, imported from
  \<^verbatim>\<open>./bus-factor\<close>, is taken to be the function of that name above; it is called with
  threshold 50, and the array it sorts is not read again.
\<close>

definition try_body :: "'w env \<Rightarrow> string \<Rightarrow> string \<Rightarrow> string \<Rightarrow> 'w state \<Rightarrow> (js_error + string) \<times> 'w state" where
  "try_body env url ow rp =
     await_then (lift_io (fetchContributors env ow rp)) (\<lambda>contributors.
     await_then (functionTimer env
        (returns (of_nat (fst (calculateBusFactor contributors (Fin 50)))))) (\<lambda>busFactor.
     await_then (functionTimer env (lift_io (calculateRampUp env ow rp))) (\<lambda>rampUpScore.
     await_then (functionTimer env (fetchRepoLicense env ow rp)) (\<lambda>retrievedLicense.
     await_then (functionTimer env (lift_io (calculateCorrectness env ow rp))) (\<lambda>correctness.
     await_then (functionTimer env (lift_io (calculateResponsiveMaintener env ow rp)))
        (\<lambda>maintainResponsiveness.
     await_then (functionTimer env
        (returns (calculateNetScore (netscore_weights env) (output' busFactor)
           (output' rampUpScore) (output' correctness) (output' maintainResponsiveness))))
        (\<lambda>netScore.
     returns (report env url netScore rampUpScore correctness busFactor
        maintainResponsiveness retrievedLicense))))))))"

definition error_line :: "string \<Rightarrow> string \<Rightarrow> js_error \<Rightarrow> string" where
  "error_line ow rp error = ''Error calculating Metrics for '' @ ow @ ''/'' @ rp @ '': '' @ error"

definition calculateMetricsForRepo :: "'w env \<Rightarrow> string \<Rightarrow> 'w state \<Rightarrow> string \<times> 'w state" where
  "calculateMetricsForRepo env url s =
     (let githubUrl = getGithubLink env url
      in case parseGithubUrl githubUrl of
           None \<Rightarrow> (''Invalid URL: '' @ githubUrl, s)
         | Some repoInfo \<Rightarrow>
             (case try_body env url (owner repoInfo) (repo repoInfo) s of
                (Inr result, s') \<Rightarrow> (result, s')
              | (Inl error, s') \<Rightarrow> (error_line (owner repoInfo) (repo repoInfo) error, s')))"

text \<open>\<^verbatim>\<open>content.split('\n')\<close>.\<close>

fun js_split :: "char \<Rightarrow> string \<Rightarrow> string list" where
  "js_split sep [] = [[]]"
| "js_split sep (c # cs) =
     (if c = sep then [] # js_split sep cs
      else (case js_split sep cs of
              [] \<Rightarrow> [[c]]
            | piece # pieces \<Rightarrow> (c # piece) # pieces))"

text \<open>
  \<^verbatim>\<open>fs.appendFileSync(file, payload)\<close>. A truncation that is due takes effect first.
\<close>

definition appendFileSync :: "string \<Rightarrow> 'w state \<Rightarrow> 'w state" where
  "appendFileSync payload s =
     (case pending s of
        None \<Rightarrow> s\<lparr>journal := journal s @ [Append payload]\<rparr>
      | Some 0 \<Rightarrow> s\<lparr>journal := journal s @ [Truncate, Append payload], pending := None\<rparr>
      | Some (Suc k) \<Rightarrow> s\<lparr>journal := journal s @ [Append payload], pending := Some k\<rparr>)"

text \<open>
  \<^verbatim>\<open>fs.writeFile(file, '', callback)\<close>, not awaited: the call only issues the truncation,
  which takes effect after \<open>lands\<close> appends (the callback does nothing unless the write
  fails, which is not modelled). \<open>writeFile_done\<close> is the state once a truncation still
  under way has taken effect; the process does not exit before.
\<close>

definition writeFile_empty :: "nat \<Rightarrow> 'w state \<Rightarrow> 'w state" where
  "writeFile_empty lands s = s\<lparr>pending := Some lands\<rparr>"

definition writeFile_done :: "'w state \<Rightarrow> 'w state" where
  "writeFile_done s =
     (case pending s of
        None \<Rightarrow> s
      | Some k \<Rightarrow> s\<lparr>journal := journal s @ [Truncate], pending := None\<rparr>)"

text \<open>
  One turn of the \<^verbatim>\<open>for\<close> loop of \<open>parseUrlFile\<close>: call \<open>calculateMetricsForRepo\<close>, await
  the result, log it, append it.
\<close>

definition process_url :: "'w env \<Rightarrow> string \<Rightarrow> 'w state \<Rightarrow> 'w state" where
  "process_url env githubUrl s =
     (case calculateMetricsForRepo env githubUrl (s\<lparr>journal := journal s @ [Begin githubUrl]\<rparr>) of
        (result, s') \<Rightarrow>
          appendFileSync (result @ ''\<newline>'') (s'\<lparr>console := console s' @ [result]\<rparr>))"

fun process_urls :: "'w env \<Rightarrow> string list \<Rightarrow> 'w state \<Rightarrow> 'w state" where
  "process_urls env [] s = s"
| "process_urls env (githubUrl # urls) s = process_urls env urls (process_url env githubUrl s)"

text \<open>
  \<open>parseUrlFile\<close> on the text \<^verbatim>\<open>fs.readFileSync\<close> returned: split the lines, issue the
  \<^verbatim>\<open>fs.writeFile\<close> that empties the output file, run the loop. \<open>lands\<close>, the number of
  appends that complete before the truncation takes effect, is the choice of the
  scheduler.
\<close>

definition input_urls :: "string \<Rightarrow> string list" where
  "input_urls content = filter (\<lambda>line. line \<noteq> []) (js_split CHR ''\<newline>'' content)"

definition parseUrlFile :: "'w env \<Rightarrow> nat \<Rightarrow> string \<Rightarrow> 'w state \<Rightarrow> 'w state" where
  "parseUrlFile env lands content s =
     writeFile_done (process_urls env (input_urls content) (writeFile_empty lands s))"

text \<open>
  For the statements below. \<open>interleave urls ps\<close> is the journal of a run that appends
  the payload of each URL before it begins the next; \<open>run_payloads\<close> lists the payloads
  the loop appends; \<open>clock_read\<close> is the world after the clock has been read;
  \<open>file_blind\<close> says that a computation neither reads nor changes the journal and the
  truncation under way.
\<close>

fun interleave :: "string list \<Rightarrow> string list \<Rightarrow> file_event list" where
  "interleave (u # us) (p # ps) = Begin u # Append p # interleave us ps"
| "interleave us ps = []"

fun run_payloads :: "'w env \<Rightarrow> string list \<Rightarrow> 'w state \<Rightarrow> string list" where
  "run_payloads env [] s = []"
| "run_payloads env (u # us) s =
     (fst (calculateMetricsForRepo env u s) @ ''\<newline>'') # run_payloads env us (process_url env u s)"

definition clock_read :: "'w env \<Rightarrow> 'w \<Rightarrow> 'w" where
  "clock_read env w = snd (now env w)"

definition file_blind :: "('w state \<Rightarrow> 'r \<times> 'w state) \<Rightarrow> bool" where
  "file_blind m =
     (\<forall>s j p. m (s\<lparr>journal := j, pending := p\<rparr>) =
        (case m s of (r, s') \<Rightarrow> (r, s'\<lparr>journal := j, pending := p\<rparr>)))"

text \<open>
  What the claim on errors promises for one URL: the result is the error text naming
  owner and repository and nothing else, the call leaves the journal as it found it,
  the loop appends exactly that line, and goes on with the remaining URLs.
\<close>

definition yields_error_line ::
  "'w env \<Rightarrow> string \<Rightarrow> string list \<Rightarrow> 'w state \<Rightarrow> string \<Rightarrow> string \<Rightarrow> js_error \<Rightarrow> bool" where
  "yields_error_line env url rest s ow rp e =
     (fst (calculateMetricsForRepo env url s) =
        ''Error calculating Metrics for '' @ ow @ ''/'' @ rp @ '': '' @ e \<and>
      journal (snd (calculateMetricsForRepo env url s)) = journal s \<and>
      appended (process_url env url s) =
        appended s @ [''Error calculating Metrics for '' @ ow @ ''/'' @ rp @ '': '' @ e @ ''\<newline>''] \<and>
      process_urls env (url # rest) s = process_urls env rest (process_url env url s))"

subsection \<open>Two environments to run the orchestrator in\<close>

text \<open>
  The world is a clock tick counter. In \<open>scenario_env\<close> every collaborator returns; in
  \<open>failing_env\<close> the contributors fetch throws, as on a 500 response; in
  \<open>license_failing_env\<close> the license request does. The number
  formatter prints the five numbers that occur in the scenario (0, 1/4, 1/2, 11/16, 1).
\<close>

definition scenario_env :: "nat env" where
  "scenario_env =
     \<lparr>getGithubLink = (\<lambda>url. url),
      fetchContributors = (\<lambda>ow rp w. (Inr octocat_contributors, Suc w)),
      calculateRampUp = (\<lambda>ow rp w. (Inr (1 / 2), Suc w)),
      axios_get_license = (\<lambda>ow rp w. (Inr ''MIT'', Suc w)),
      calculateCorrectness = (\<lambda>ow rp w. (Inr 1, Suc w)),
      calculateResponsiveMaintener = (\<lambda>ow rp w. (Inr (1 / 4), Suc w)),
      now = (\<lambda>w. (of_nat w, w)),
      netscore_weights =
        \<lparr>wBusFactor = 1 / 4, wRampUp = 1 / 4, wCorrectness = 1 / 4, wResponsiveness = 1 / 4\<rparr>,
      toPrecision5 =
        (\<lambda>x. if x = 11 / 16 then ''0.6875'' else if x = 1 / 2 then ''0.5''
             else if x = 1 / 4 then ''0.25'' else if x = 1 then ''1'' else ''0'')\<rparr>"

definition failing_env :: "nat env" where
  "failing_env =
     scenario_env\<lparr>fetchContributors :=
       (\<lambda>ow rp w. (Inl ''Error: Request failed with status code 500'', Suc w))\<rparr>"

definition license_failing_env :: "nat env" where
  "license_failing_env =
     scenario_env\<lparr>axios_get_license :=
       (\<lambda>ow rp w. (Inl ''AxiosError: Request failed with status code 404'', Suc w))\<rparr>"

definition start :: "nat state" where
  "start = \<lparr>world = 0, console = [], journal = [], pending = None\<rparr>"

section \<open>Net score stays in the unit interval\<close>

lemma weighted_le: "0 \<le> (w::rat) \<Longrightarrow> x \<le> 1 \<Longrightarrow> w * x \<le> w"
  using mult_left_mono [of x 1 w] by simp

text \<open>
  C1. For four scores in \<open>[0,1]\<close>, and weights that are non-negative and sum to 1, the
  net score is in \<open>[0,1]\<close>.
\<close>

theorem calculateNetScore_unit:
  assumes "valid_weights w"
    and "unit_score b" and "unit_score r" and "unit_score c" and "unit_score m"
  shows "unit_score (calculateNetScore w b r c m)"
proof -
  from assms(1) have nn: "0 \<le> wBusFactor w" "0 \<le> wRampUp w" "0 \<le> wCorrectness w"
      "0 \<le> wResponsiveness w"
    and one: "wBusFactor w + wRampUp w + wCorrectness w + wResponsiveness w = 1"
    by (simp_all add: valid_weights_def)
  from assms(2-5) have lo: "0 \<le> b" "0 \<le> r" "0 \<le> c" "0 \<le> m"
    and hi: "b \<le> 1" "r \<le> 1" "c \<le> 1" "m \<le> 1"
    by (simp_all add: unit_score_def)
  have "0 \<le> wBusFactor w * b" "0 \<le> wRampUp w * r" "0 \<le> wCorrectness w * c"
      "0 \<le> wResponsiveness w * m"
    using nn lo by simp_all
  then have lower: "0 \<le> calculateNetScore w b r c m"
    by (simp add: calculateNetScore_def)
  have "wBusFactor w * b \<le> wBusFactor w" "wRampUp w * r \<le> wRampUp w"
      "wCorrectness w * c \<le> wCorrectness w" "wResponsiveness w * m \<le> wResponsiveness w"
    using nn hi by (simp_all add: weighted_le)
  then have "calculateNetScore w b r c m
      \<le> wBusFactor w + wRampUp w + wCorrectness w + wResponsiveness w"
    by (simp add: calculateNetScore_def)
  with one have upper: "calculateNetScore w b r c m \<le> 1"
    by simp
  from lower upper show ?thesis
    by (simp add: unit_score_def)
qed

theorem calculateNetScore_unit_witness:
  "valid_weights \<lparr>wBusFactor = 1/4, wRampUp = 1/4, wCorrectness = 1/4, wResponsiveness = 1/4\<rparr>
   \<and> unit_score 1 \<and> unit_score 0 \<and> unit_score (1/2)
   \<and> unit_score (calculateNetScore
        \<lparr>wBusFactor = 1/4, wRampUp = 1/4, wCorrectness = 1/4, wResponsiveness = 1/4\<rparr>
        1 0 (1/2) 1)"
proof -
  have w: "valid_weights
      \<lparr>wBusFactor = 1/4, wRampUp = 1/4, wCorrectness = 1/4, wResponsiveness = 1/4\<rparr>"
    by (simp add: valid_weights_def)
  have u: "unit_score 1" "unit_score 0" "unit_score (1/2)"
    by (simp_all add: unit_score_def)
  from calculateNetScore_unit [OF w u(1) u(2) u(3) u(1)] w u show ?thesis
    by simp
qed

section \<open>Bus factor: sorting, the loop, thresholds\<close>

lemma fl_1: "fl 1 = 1"
  by code_simp

lemma fl_100: "fl 100 = 100"
  by code_simp

text \<open>
  The binary64 values of \<^verbatim>\<open>1 / 10\<close>, of \<^verbatim>\<open>57 / 100\<close> and of \<^verbatim>\<open>(57 / 100) * 100\<close>,
  which JavaScript prints as \<^verbatim>\<open>56.99999999999999\<close>.
\<close>

lemma fl_tenth: "fl (1 / 10) = 3602879701896397 / 2 ^ 55"
  by code_simp

lemma fl_57_percent: "fl (57 / 100) = 5134103575202365 / 2 ^ 53"
  by code_simp

lemma fl_57_percent_times_100: "fl (fl (57 / 100) * 100) = 57 - 1 / 2 ^ 47"
  by code_simp

lemma js_ge_trans: "js_ge p t2 \<Longrightarrow> js_ge t2 t1 \<Longrightarrow> js_ge p t1"
  by (cases p; cases t2; cases t1) auto

lemma foldl_commits:
  "foldl (\<lambda>acc c. acc + contributions c) a cs = a + sum_list (map contributions cs)"
  by (induction cs arbitrary: a) auto

lemma mset_insert_sorted: "mset (insert_sorted cmp x ys) = add_mset x (mset ys)"
  by (induction ys) auto

lemma mset_array_sort: "mset (array_sort cmp xs) = mset xs"
  by (induction xs) (auto simp: array_sort_def mset_insert_sorted)

lemma set_insert_sorted: "set (insert_sorted cmp x ys) = insert x (set ys)"
  using mset_insert_sorted [of cmp x ys, THEN arg_cong [where f = set_mset]] by simp

lemma descending_insert_sorted:
  "descending ys \<Longrightarrow> descending (insert_sorted compareFn x ys)"
  by (induction ys) (auto simp: descending_def set_insert_sorted compareFn_def)

lemma descending_Nil: "descending []"
  by (simp add: descending_def)

lemma descending_array_sort: "descending (array_sort compareFn xs)"
  by (induction xs) (simp_all add: array_sort_def descending_insert_sorted descending_Nil)

lemma length_array_sort: "length (array_sort cmp xs) = length xs"
  using mset_array_sort [of cmp xs, THEN arg_cong [where f = size]] by simp


lemma loop_lower: "b \<le> busFactor_loop T t cs s b"
  by (induction cs arbitrary: s b) (auto simp: Let_def intro: Suc_leD)



lemma loop_mono:
  "js_ge t2 t1 \<Longrightarrow> busFactor_loop T t1 cs s b \<le> busFactor_loop T t2 cs s b"
proof (induction cs arbitrary: s b)
  case Nil
  then show ?case by simp
next
  case (Cons c cs)
  show ?case
  proof (cases "js_ge (contributionPercentage (s + contributions c) T) t2")
    case True
    from js_ge_trans [OF True Cons.prems]
    have "js_ge (contributionPercentage (s + contributions c) T) t1" .
    with True show ?thesis by (simp add: Let_def)
  next
    case False
    then show ?thesis
      using Cons.IH [OF Cons.prems, of "s + contributions c" "Suc b"]
        loop_lower [of "Suc b" T t2 cs "s + contributions c"]
      by (simp add: Let_def)
  qed
qed

lemma percentage_zero: "contributionPercentage 0 0 = NaN"
  by (simp add: contributionPercentage_def js_div_def)

lemma loop_all_zero:
  "\<forall>c \<in> set cs. contributions c = 0 \<Longrightarrow> busFactor_loop 0 t cs 0 b = b + length cs"
  by (induction cs arbitrary: b) (auto simp: Let_def percentage_zero)

lemma percentage_full: "0 < T \<Longrightarrow> contributionPercentage T T = Fin 100"
  by (simp add: contributionPercentage_def js_div_def fl_1 fl_100)





lemma busFactor_eq:
  "fst (calculateBusFactor cs t) =
     busFactor_loop (total_commits cs) t (array_sort compareFn cs) 0 0"
  by (simp add: calculateBusFactor_def Let_def foldl_commits total_commits_def)

subsection \<open>The error of one rounding\<close>











subsection \<open>The value returned and the exact shares\<close>








text \<open>
  Where rounding does change a decision: \<^verbatim>\<open>(57 / 100) * 100\<close> is rounded twice and ends
  below 57, so with threshold 57 the loop goes on to the second contributor although the
  share of the first is exactly 57. The statement above says nothing about such inputs.
\<close>

lemma rounded_share_example:
  "fst (calculateBusFactor
     [\<lparr>login = ''a'', contributions = 57\<rparr>, \<lparr>login = ''b'', contributions = 43\<rparr>] (Fin 57)) = 2
   \<and> exact_share
     [\<lparr>login = ''a'', contributions = 57\<rparr>, \<lparr>login = ''b'', contributions = 43\<rparr>] 1 = 57
   \<and> share_reaches
     [\<lparr>login = ''a'', contributions = 57\<rparr>, \<lparr>login = ''b'', contributions = 43\<rparr>] (Fin 57) 1
   \<and> \<not> rounding_safe
     [\<lparr>login = ''a'', contributions = 57\<rparr>, \<lparr>login = ''b'', contributions = 43\<rparr>] (Fin 57)"
  by code_simp

text \<open>
  Shares that are computed exactly are covered, also when they meet the threshold: one
  half of the commits at threshold 50, all of them at threshold 100.
\<close>

lemma default_threshold_example:
  "rounding_safe [\<lparr>login = ''a'', contributions = 1\<rparr>, \<lparr>login = ''b'', contributions = 1\<rparr>] (Fin 50)
   \<and> rounding_safe octocat_contributors (Fin 50)
   \<and> rounding_safe octocat_contributors (Fin 100)"
  by code_simp

text \<open>
  C4. For a contributor list whose contributions sum to zero, \<open>calculateBusFactor\<close>
  returns a number, the length of the list (\<^verbatim>\<open>0 / 0\<close> is \<open>NaN\<close>, every comparison
  with it is false, and nothing is thrown); for the empty list it returns 0.
\<close>

theorem calculateBusFactor_zero_total:
  "(total_commits cs = 0 \<longrightarrow> fst (calculateBusFactor cs t) = length cs)
   \<and> fst (calculateBusFactor [] t) = 0"
proof
  show "total_commits cs = 0 \<longrightarrow> fst (calculateBusFactor cs t) = length cs"
  proof
    assume zero: "total_commits cs = 0"
    then have "\<forall>c \<in> set cs. contributions c = 0"
      by (simp add: total_commits_def)
    then have "\<forall>c \<in> set (array_sort compareFn cs). contributions c = 0"
      using mset_array_sort [of compareFn cs, THEN arg_cong [where f = set_mset]] by simp
    from loop_all_zero [OF this, where t = t and b = 0] zero show "fst (calculateBusFactor cs t) = length cs"
      by (simp add: busFactor_eq length_array_sort)
  qed
  show "fst (calculateBusFactor [] t) = 0"
    by (simp add: calculateBusFactor_def array_sort_def)
qed

theorem calculateBusFactor_zero_total_witness:
  "total_commits [\<lparr>login = ''a'', contributions = 0\<rparr>, \<lparr>login = ''b'', contributions = 0\<rparr>] = 0
   \<and> fst (calculateBusFactor
        [\<lparr>login = ''a'', contributions = 0\<rparr>, \<lparr>login = ''b'', contributions = 0\<rparr>] (Fin 50)) = 2"
proof -
  have zero: "total_commits
      [\<lparr>login = ''a'', contributions = 0\<rparr>, \<lparr>login = ''b'', contributions = 0\<rparr>] = 0"
    by (simp add: total_commits_def)
  from calculateBusFactor_zero_total
    [of "[\<lparr>login = ''a'', contributions = 0\<rparr>, \<lparr>login = ''b'', contributions = 0\<rparr>]" "Fin 50"]
    zero
  show ?thesis by simp
qed

text \<open>
  C5. With the contributor list fixed, the value returned does not decrease when the
  threshold increases.
\<close>

theorem calculateBusFactor_mono:
  assumes "js_le t1 t2"
  shows "fst (calculateBusFactor cs t1) \<le> fst (calculateBusFactor cs t2)"
  using assms
    loop_mono [where ?t2.0 = t2 and ?t1.0 = t1 and T = "total_commits cs"
      and cs = "array_sort compareFn cs" and s = 0 and b = 0]
  by (simp add: busFactor_eq js_le_def)

theorem calculateBusFactor_mono_witness:
  "js_le (Fin 50) (Fin 95)
   \<and> fst (calculateBusFactor octocat_contributors (Fin 50)) = 1
   \<and> fst (calculateBusFactor octocat_contributors (Fin 95)) = 2"
proof -
  have le: "js_le (Fin 50) (Fin 95)"
    by (simp add: js_le_def)
  have lo: "fst (calculateBusFactor octocat_contributors (Fin 50)) = 1"
    by code_simp
  have hi: "fst (calculateBusFactor octocat_contributors (Fin 95)) = 2"
    by code_simp
  from calculateBusFactor_mono [OF le, of octocat_contributors] le lo hi show ?thesis
    by simp
qed

text \<open>
  C10. After the call the caller's array is the stable sort of its former contents by
  the comparator: the same contributors, in descending order of contributions.
\<close>

theorem calculateBusFactor_sorts_argument:
  "snd (calculateBusFactor cs t) = array_sort compareFn cs
   \<and> descending (snd (calculateBusFactor cs t))
   \<and> mset (snd (calculateBusFactor cs t)) = mset cs"
  by (simp add: calculateBusFactor_def Let_def descending_array_sort mset_array_sort)

theorem calculateBusFactor_sorts_argument_witness:
  "snd (calculateBusFactor octocat_contributors (Fin 50)) =
     [\<lparr>login = ''a'', contributions = 90\<rparr>, \<lparr>login = ''b'', contributions = 10\<rparr>]
   \<and> snd (calculateBusFactor octocat_contributors (Fin 50)) \<noteq> octocat_contributors"
proof -
  have "array_sort compareFn octocat_contributors =
      [\<lparr>login = ''a'', contributions = 90\<rparr>, \<lparr>login = ''b'', contributions = 10\<rparr>]"
    by code_simp
  with calculateBusFactor_sorts_argument [of octocat_contributors "Fin 50"] show ?thesis
    by (simp add: octocat_contributors_def)
qed

section \<open>Resolver: what the expression matches\<close>

lemma not_slash_slash: "\<not> not_slash CHR ''/''"
  by (simp add: not_slash_def)

lemma takeWhile_segment:
  "list_all not_slash seg \<Longrightarrow> takeWhile not_slash (seg @ CHR ''/'' # rest) = seg"
  by (simp add: takeWhile_append2 list_all_iff not_slash_slash)

lemma dropWhile_segment:
  "list_all not_slash seg \<Longrightarrow> dropWhile not_slash (seg @ CHR ''/'' # rest) = CHR ''/'' # rest"
  by (simp add: dropWhile_append2 list_all_iff not_slash_slash)

lemma takeWhile_last_segment:
  "list_all not_slash seg \<Longrightarrow> post = [] \<or> hd post = CHR ''/'' \<Longrightarrow>
     takeWhile not_slash (seg @ post) = seg"
  by (cases post) (auto simp: takeWhile_append2 list_all_iff not_slash_slash)

lemma match_at_shape:
  assumes "ow \<noteq> []" "rp \<noteq> []" "list_all not_slash ow" "list_all not_slash rp"
    and "post = [] \<or> hd post = CHR ''/''"
  shows "match_at (github_prefix @ ow @ CHR ''/'' # rp @ post) = Some (ow, rp)"
  using assms
  by (simp add: match_at_def Let_def takeWhile_segment dropWhile_segment takeWhile_last_segment)

lemma match_at_SomeD:
  assumes "match_at s = Some (g1, g2)"
  shows "\<exists>post. s = github_prefix @ g1 @ CHR ''/'' # g2 @ post \<and> g1 \<noteq> [] \<and> g2 \<noteq> [] \<and>
     list_all not_slash g1 \<and> list_all not_slash g2 \<and> (post = [] \<or> hd post = CHR ''/'')"
proof -
  let ?rest = "drop (length github_prefix) s"
  from assms have pre: "take (length github_prefix) s = github_prefix"
    by (auto simp: match_at_def split: if_splits)
  with assms have g1: "g1 = takeWhile not_slash ?rest" "g1 \<noteq> []"
    by (auto simp: match_at_def Let_def split: if_splits list.splits)
  from assms pre obtain sl rest2 where dw: "dropWhile not_slash ?rest = sl # rest2"
    and g2: "g2 = takeWhile not_slash rest2" "g2 \<noteq> []"
    by (auto simp: match_at_def Let_def split: if_splits list.splits)
  from dw have "\<not> not_slash sl"
    using hd_dropWhile [of not_slash ?rest] by auto
  then have sl: "sl = CHR ''/''"
    by (simp add: not_slash_def)
  let ?post = "dropWhile not_slash rest2"
  have "s = take (length github_prefix) s @ ?rest"
    by simp
  moreover have "?rest = g1 @ sl # rest2"
    using takeWhile_dropWhile_id [of not_slash ?rest] by (simp add: g1 dw)
  moreover have "rest2 = g2 @ ?post"
    by (simp add: g2)
  ultimately have s: "s = github_prefix @ g1 @ CHR ''/'' # g2 @ ?post"
    using pre sl by metis
  have post: "?post = [] \<or> hd ?post = CHR ''/''"
    using hd_dropWhile [of not_slash rest2] by (auto simp: not_slash_def)
  have "list_all not_slash g1" "list_all not_slash g2"
    using g1 g2 by (auto simp: list_all_iff dest: set_takeWhileD)
  with s g1 g2 post show ?thesis
    by blast
qed


lemma match_at_Some_iff:
  "(\<exists>g. match_at s = Some g) \<longleftrightarrow>
     (\<exists>seg c post. s = github_prefix @ seg @ CHR ''/'' # c # post \<and>
        seg \<noteq> [] \<and> list_all not_slash seg \<and> not_slash c)"
proof
  assume "\<exists>g. match_at s = Some g"
  then obtain g1 g2 where "match_at s = Some (g1, g2)"
    by auto
  from match_at_SomeD [OF this] obtain post where
    s: "s = github_prefix @ g1 @ CHR ''/'' # g2 @ post" and g: "g1 \<noteq> []" "g2 \<noteq> []"
      "list_all not_slash g1" "list_all not_slash g2"
    by blast
  from g(2) obtain c cs where g2: "g2 = c # cs"
    by (cases g2) auto
  with g(4) have "not_slash c"
    by simp
  with s g g2 show "\<exists>seg c post. s = github_prefix @ seg @ CHR ''/'' # c # post \<and>
        seg \<noteq> [] \<and> list_all not_slash seg \<and> not_slash c"
    by auto
next
  assume "\<exists>seg c post. s = github_prefix @ seg @ CHR ''/'' # c # post \<and>
        seg \<noteq> [] \<and> list_all not_slash seg \<and> not_slash c"
  then obtain seg c post where s: "s = github_prefix @ seg @ CHR ''/'' # c # post"
    and seg: "seg \<noteq> []" "list_all not_slash seg" and c: "not_slash c"
    by blast
  let ?rp = "takeWhile not_slash (c # post)"
  let ?post = "dropWhile not_slash (c # post)"
  have rp: "?rp \<noteq> []" "list_all not_slash ?rp"
    using c by (auto simp: list_all_iff dest: set_takeWhileD)
  have post: "?post = [] \<or> hd ?post = CHR ''/''"
    using hd_dropWhile [of not_slash "c # post"] by (auto simp: not_slash_def)
  have "c # post = ?rp @ ?post"
    by simp
  with s have "s = github_prefix @ seg @ CHR ''/'' # ?rp @ ?post"
    by simp
  with match_at_shape [OF seg(1) rp(1) seg(2) rp(2) post] show "\<exists>g. match_at s = Some g"
    by simp
qed

lemma regex_match_of_match_at: "match_at s = Some g \<Longrightarrow> regex_match s = Some g"
  by (cases s) auto

lemma regex_match_None_iff:
  "regex_match s = None \<longleftrightarrow> (\<forall>pre suf. s = pre @ suf \<longrightarrow> match_at suf = None)"
proof (induction s)
  case Nil
  then show ?case by simp
next
  case (Cons c cs)
  show ?case
  proof
    assume none: "regex_match (c # cs) = None"
    then have here: "match_at (c # cs) = None" and later: "regex_match cs = None"
      by (auto split: option.splits)
    show "\<forall>pre suf. c # cs = pre @ suf \<longrightarrow> match_at suf = None"
    proof (intro allI impI)
      fix pre suf assume eq: "c # cs = pre @ suf"
      show "match_at suf = None"
      proof (cases pre)
        case Nil
        with eq here show ?thesis by simp
      next
        case (Cons p ps)
        with eq have "cs = ps @ suf" by simp
        with later Cons.IH show ?thesis by blast
      qed
    qed
  next
    assume all: "\<forall>pre suf. c # cs = pre @ suf \<longrightarrow> match_at suf = None"
    then have here: "match_at (c # cs) = None"
      by (metis append_Nil)
    have "\<forall>pre suf. cs = pre @ suf \<longrightarrow> match_at suf = None"
      using all by (metis append_Cons)
    with Cons.IH have "regex_match cs = None"
      by simp
    with here show "regex_match (c # cs) = None"
      by simp
  qed
qed

lemma regex_match_groups: "regex_match s = Some (g1, g2) \<Longrightarrow> g1 \<noteq> [] \<and> g2 \<noteq> []"
proof (induction s)
  case Nil
  then show ?case using match_at_SomeD [of "[]" g1 g2] by auto
next
  case (Cons c cs)
  then show ?case
    using match_at_SomeD [of "c # cs" g1 g2] by (auto split: option.splits)
qed

lemma parseGithubUrl_None_iff: "parseGithubUrl s = None \<longleftrightarrow> regex_match s = None"
  using regex_match_groups [of s] by (auto simp: parseGithubUrl_def split: option.splits)

lemma contains_repo_path_iff: "contains_repo_path s \<longleftrightarrow> regex_match s \<noteq> None"
proof -
  have "contains_repo_path s \<longleftrightarrow> (\<exists>pre suf. s = pre @ suf \<and> (\<exists>g. match_at suf = Some g))"
    unfolding contains_repo_path_def match_at_Some_iff by (metis append_assoc)
  also have "\<dots> \<longleftrightarrow> regex_match s \<noteq> None"
    by (auto simp: regex_match_None_iff)
  finally show ?thesis .
qed

text \<open>
  C3, amended. A string of the exact form \<^verbatim>\<open>https://github.com/{owner}/{repo}\<close>, with
  owner and repo non-empty and free of slashes, resolves to exactly that owner and repo;
  and the resolver returns the failure value exactly for the strings that nowhere
  contain the prefix followed by a non-empty segment, a slash and one more character
  that is not a slash.
\<close>

theorem parseGithubUrl_resolves:
  "(ow \<noteq> [] \<and> rp \<noteq> [] \<and> list_all not_slash ow \<and> list_all not_slash rp \<longrightarrow>
      parseGithubUrl (github_prefix @ ow @ ''/'' @ rp) = Some \<lparr>owner = ow, repo = rp\<rparr>)
   \<and> (parseGithubUrl s = None \<longleftrightarrow> \<not> contains_repo_path s)"
proof
  show "ow \<noteq> [] \<and> rp \<noteq> [] \<and> list_all not_slash ow \<and> list_all not_slash rp \<longrightarrow>
      parseGithubUrl (github_prefix @ ow @ ''/'' @ rp) = Some \<lparr>owner = ow, repo = rp\<rparr>"
  proof
    assume a: "ow \<noteq> [] \<and> rp \<noteq> [] \<and> list_all not_slash ow \<and> list_all not_slash rp"
    then have "match_at (github_prefix @ ow @ CHR ''/'' # rp @ []) = Some (ow, rp)"
      by (intro match_at_shape) simp_all
    then have "regex_match (github_prefix @ ow @ ''/'' @ rp) = Some (ow, rp)"
      by (simp add: regex_match_of_match_at)
    with a show "parseGithubUrl (github_prefix @ ow @ ''/'' @ rp) = Some \<lparr>owner = ow, repo = rp\<rparr>"
      by (simp add: parseGithubUrl_def)
  qed
  show "parseGithubUrl s = None \<longleftrightarrow> \<not> contains_repo_path s"
    using parseGithubUrl_None_iff [of s] contains_repo_path_iff [of s] by blast
qed

theorem parseGithubUrl_resolves_witness:
  "parseGithubUrl ''https://github.com/octocat/Hello-World'' =
     Some \<lparr>owner = ''octocat'', repo = ''Hello-World''\<rparr>
   \<and> parseGithubUrl ''not-a-url'' = None
   \<and> \<not> contains_repo_path ''not-a-url''"
proof -
  have ok: "''octocat'' \<noteq> [] \<and> ''Hello-World'' \<noteq> [] \<and> list_all not_slash ''octocat''
      \<and> list_all not_slash ''Hello-World''"
    by (simp add: not_slash_def)
  have none: "parseGithubUrl ''not-a-url'' = None"
    by code_simp
  from parseGithubUrl_resolves [of "''octocat''" "''Hello-World''" "''not-a-url''"] ok none
  show ?thesis
    by (simp add: github_prefix_def)
qed

text \<open>
  C3 as stated fails on a string that lacks the exact shape: with a third path segment
  the resolver still returns the first two.
\<close>

theorem parseGithubUrl_extra_segment_counterexample:
  "\<not> exact_form ''https://github.com/a/b/c''
   \<and> parseGithubUrl ''https://github.com/a/b/c'' = Some \<lparr>owner = ''a'', repo = ''b''\<rparr>"
  by code_simp

text \<open>\<open>exact_form\<close> is the shape as the specification words it.\<close>

lemma exact_form_iff:
  "exact_form s \<longleftrightarrow>
     (\<exists>ow rp. s = github_prefix @ ow @ ''/'' @ rp \<and> ow \<noteq> [] \<and> rp \<noteq> [] \<and>
        list_all not_slash ow \<and> list_all not_slash rp)"
proof
  assume e: "exact_form s"
  let ?rest = "drop (length github_prefix) s"
  let ?ow = "takeWhile not_slash ?rest"
  let ?rp = "drop 1 (dropWhile not_slash ?rest)"
  from e have pre: "take (length github_prefix) s = github_prefix" and ow: "?ow \<noteq> []"
    and rp: "?rp \<noteq> []" "list_all not_slash ?rp"
    by (simp_all add: exact_form_def Let_def)
  from rp(1) obtain sl tl where dw: "dropWhile not_slash ?rest = sl # tl"
    by (cases "dropWhile not_slash ?rest") auto
  then have tl: "?rp = tl"
    by simp
  from dw have "\<not> not_slash sl"
    using hd_dropWhile [of not_slash ?rest] by auto
  then have sl: "sl = CHR ''/''"
    by (simp add: not_slash_def)
  have "s = take (length github_prefix) s @ ?rest"
    by simp
  moreover have "?rest = ?ow @ sl # tl"
    using takeWhile_dropWhile_id [of not_slash ?rest] dw by simp
  ultimately have "s = github_prefix @ ?ow @ ''/'' @ ?rp"
    using pre sl tl by (metis append_Cons append_Nil)
  moreover have "list_all not_slash ?ow"
    by (auto simp: list_all_iff dest: set_takeWhileD)
  ultimately show "\<exists>ow rp. s = github_prefix @ ow @ ''/'' @ rp \<and> ow \<noteq> [] \<and> rp \<noteq> [] \<and>
        list_all not_slash ow \<and> list_all not_slash rp"
    using ow rp by blast
next
  assume "\<exists>ow rp. s = github_prefix @ ow @ ''/'' @ rp \<and> ow \<noteq> [] \<and> rp \<noteq> [] \<and>
        list_all not_slash ow \<and> list_all not_slash rp"
  then show "exact_form s"
    by (auto simp: exact_form_def Let_def takeWhile_segment dropWhile_segment)
qed

section \<open>Orchestrator: results, errors, order of the output\<close>

lemma file_blindD:
  "file_blind m \<Longrightarrow> m s = (r, s') \<Longrightarrow>
     m (s\<lparr>journal := j, pending := p\<rparr>) = (r, s'\<lparr>journal := j, pending := p\<rparr>)"
  by (simp add: file_blind_def)

lemma file_blind_keeps:
  assumes "file_blind m" and "m s = (r, s')"
  shows "journal s' = journal s \<and> pending s' = pending s"
proof -
  from file_blindD [OF assms, where j = "journal s" and p = "pending s"] assms(2)
  have "s' = s'\<lparr>journal := journal s, pending := pending s\<rparr>"
    by simp
  then have "journal s' = journal (s'\<lparr>journal := journal s, pending := pending s\<rparr>)"
    and "pending s' = pending (s'\<lparr>journal := journal s, pending := pending s\<rparr>)"
    by simp_all
  then show ?thesis
    by simp
qed

lemma file_blind_lift_io: "file_blind (lift_io f)"
  by (simp add: file_blind_def lift_io_def split: prod.splits)

lemma file_blind_returns: "file_blind (returns v)"
  by (simp add: file_blind_def returns_def)

lemma file_blind_fetchRepoLicense: "file_blind (fetchRepoLicense env ow rp)"
  by (simp add: file_blind_def fetchRepoLicense_def split: prod.splits sum.splits)

lemma file_blind_functionTimer:
  assumes "file_blind f"
  shows "file_blind (functionTimer env f)"
proof (unfold file_blind_def, intro allI)
  fix s :: "'a state" and j p
  obtain t0 w0 where n0: "now env (world s) = (t0, w0)"
    by (cases "now env (world s)")
  obtain r1 s1 where f: "f (s\<lparr>world := w0\<rparr>) = (r1, s1)"
    by (cases "f (s\<lparr>world := w0\<rparr>)")
  have swap: "s\<lparr>journal := j, pending := p, world := w0\<rparr> = s\<lparr>world := w0, journal := j, pending := p\<rparr>"
    by (cases s) simp
  have f': "f (s\<lparr>journal := j, pending := p, world := w0\<rparr>) = (r1, s1\<lparr>journal := j, pending := p\<rparr>)"
    by (subst swap) (rule file_blindD [OF assms f])
  show "functionTimer env f (s\<lparr>journal := j, pending := p\<rparr>) =
      (case functionTimer env f s of (r, s') \<Rightarrow> (r, s'\<lparr>journal := j, pending := p\<rparr>))"
    using n0 f f' by (cases r1) (simp_all add: functionTimer_def split: prod.splits)
qed

lemma file_blind_await_then:
  assumes "file_blind m" and "\<And>v. file_blind (f v)"
  shows "file_blind (await_then m f)"
proof (unfold file_blind_def, intro allI)
  fix s :: "'a state" and j p
  obtain r1 s1 where m: "m s = (r1, s1)"
    by (cases "m s")
  note m' = file_blindD [OF assms(1) m, where j = j and p = p]
  show "await_then m f (s\<lparr>journal := j, pending := p\<rparr>) =
      (case await_then m f s of (r, s') \<Rightarrow> (r, s'\<lparr>journal := j, pending := p\<rparr>))"
  proof (cases r1)
    case (Inl e)
    with m m' show ?thesis
      by (simp add: await_then_def)
  next
    case (Inr v)
    obtain r2 s2 where f: "f v s1 = (r2, s2)"
      by (cases "f v s1")
    from file_blindD [OF assms(2) f, where j = j and p = p] Inr m m' f show ?thesis
      by (simp add: await_then_def)
  qed
qed

lemma file_blind_try_body: "file_blind (try_body env url ow rp)"
  unfolding try_body_def
  by (intro file_blind_await_then file_blind_functionTimer file_blind_lift_io
      file_blind_returns file_blind_fetchRepoLicense)

lemma file_blind_calculateMetricsForRepo: "file_blind (calculateMetricsForRepo env url)"
proof (unfold file_blind_def, intro allI)
  fix s :: "'a state" and j p
  show "calculateMetricsForRepo env url (s\<lparr>journal := j, pending := p\<rparr>) =
      (case calculateMetricsForRepo env url s of (r, s') \<Rightarrow> (r, s'\<lparr>journal := j, pending := p\<rparr>))"
  proof (cases "parseGithubUrl (getGithubLink env url)")
    case None
    then show ?thesis
      by (simp add: calculateMetricsForRepo_def)
  next
    case (Some ri)
    obtain r s' where t: "try_body env url (owner ri) (repo ri) s = (r, s')"
      by (cases "try_body env url (owner ri) (repo ri) s")
    from file_blindD [OF file_blind_try_body t, where j = j and p = p] Some t show ?thesis
      by (cases r) (simp_all add: calculateMetricsForRepo_def)
  qed
qed

lemma payloads_append: "payloads (es @ fs) = payloads es @ payloads fs"
  by (induction es rule: payloads.induct) auto

lemma file_content_append: "file_content c (es @ fs) = file_content (file_content c es) fs"
  by (induction c es rule: file_content.induct) auto

lemma appended_appendFileSync: "appended (appendFileSync p s) = appended s @ [p]"
  by (auto simp: appendFileSync_def appended_def payloads_append split: option.splits nat.splits)

lemma process_url_eq:
  assumes "calculateMetricsForRepo env u s = (r, s1)"
  shows "process_url env u s =
     appendFileSync (r @ ''\<newline>'')
       (s1\<lparr>journal := journal s @ [Begin u], console := console s1 @ [r]\<rparr>)"
proof -
  have "calculateMetricsForRepo env u (s\<lparr>journal := journal s @ [Begin u], pending := pending s\<rparr>)
      = (r, s1\<lparr>journal := journal s @ [Begin u], pending := pending s\<rparr>)"
    by (rule file_blindD [OF file_blind_calculateMetricsForRepo assms])
  moreover from file_blind_keeps [OF file_blind_calculateMetricsForRepo assms]
  have "s1\<lparr>journal := journal s @ [Begin u], pending := pending s\<rparr> =
      s1\<lparr>journal := journal s @ [Begin u]\<rparr>"
    by (cases s1) simp
  ultimately show ?thesis
    by (simp add: process_url_def)
qed

lemma calculateMetricsForRepo_keeps_journal:
  "journal (snd (calculateMetricsForRepo env url s)) = journal s"
  using file_blind_keeps [OF file_blind_calculateMetricsForRepo, of env url s]
  by (cases "calculateMetricsForRepo env url s") simp

lemma appended_process_url:
  "appended (process_url env url s) =
     appended s @ [fst (calculateMetricsForRepo env url s) @ ''\<newline>'']"
proof -
  obtain r s1 where c: "calculateMetricsForRepo env url s = (r, s1)"
    by (cases "calculateMetricsForRepo env url s")
  show ?thesis
    unfolding process_url_eq [OF c] appended_appendFileSync
    by (simp add: c appended_def payloads_append)
qed

lemma journal_process_url:
  "journal (process_url env u s) =
     journal s @ [Begin u] @ (if pending s = Some 0 then [Truncate] else []) @
       [Append (fst (calculateMetricsForRepo env u s) @ ''\<newline>'')]"
  "pending (process_url env u s) =
     (case pending s of None \<Rightarrow> None | Some 0 \<Rightarrow> None | Some (Suc k) \<Rightarrow> Some k)"
proof -
  obtain r s1 where c: "calculateMetricsForRepo env u s = (r, s1)"
    by (cases "calculateMetricsForRepo env u s")
  from file_blind_keeps [OF file_blind_calculateMetricsForRepo c]
  have keep: "pending s1 = pending s"
    by simp
  show "journal (process_url env u s) =
     journal s @ [Begin u] @ (if pending s = Some 0 then [Truncate] else []) @
       [Append (fst (calculateMetricsForRepo env u s) @ ''\<newline>'')]"
    unfolding process_url_eq [OF c]
    by (auto simp: c keep appendFileSync_def split: option.splits nat.splits)
  show "pending (process_url env u s) =
     (case pending s of None \<Rightarrow> None | Some 0 \<Rightarrow> None | Some (Suc k) \<Rightarrow> Some k)"
    unfolding process_url_eq [OF c]
    by (auto simp: keep appendFileSync_def split: option.splits nat.splits)
qed

lemma process_urls_append:
  "process_urls env (us @ vs) s = process_urls env vs (process_urls env us s)"
  by (induction us arbitrary: s) auto

lemma length_run_payloads: "length (run_payloads env us s) = length us"
  by (induction us arbitrary: s) auto

lemma appended_process_urls:
  "appended (process_urls env us s) = appended s @ run_payloads env us s"
  by (induction us arbitrary: s) (auto simp: appended_process_url)

lemma run_payloads_nth:
  "i < length us \<Longrightarrow>
     run_payloads env us s ! i =
       fst (calculateMetricsForRepo env (us ! i) (process_urls env (take i us) s)) @ ''\<newline>''"
proof (induction us arbitrary: i s)
  case Nil
  then show ?case by simp
next
  case (Cons u us)
  then show ?case
    by (cases i) auto
qed

lemma journal_process_urls:
  "filter (\<lambda>e. e \<noteq> Truncate) (journal (process_urls env us s)) =
     filter (\<lambda>e. e \<noteq> Truncate) (journal s) @ interleave us (run_payloads env us s)"
  by (induction us arbitrary: s) (auto simp: journal_process_url)

lemma file_process_urls_none:
  "pending s = None \<Longrightarrow>
     file_content c (journal (process_urls env us s)) =
       file_content c (journal s) @ concat (run_payloads env us s)
     \<and> pending (process_urls env us s) = None"
proof (induction us arbitrary: s)
  case Nil
  then show ?case by simp
next
  case (Cons u us)
  from Cons.prems have p: "pending (process_url env u s) = None"
    by (simp add: journal_process_url)
  from Cons.IH [OF p] Cons.prems show ?case
    by (simp add: journal_process_url file_content_append)
qed

lemma file_process_urls_late:
  "pending s = Some k \<Longrightarrow> length us \<le> k \<Longrightarrow>
     file_content c (journal (process_urls env us s)) =
       file_content c (journal s) @ concat (run_payloads env us s)
     \<and> pending (process_urls env us s) = Some (k - length us)"
proof (induction us arbitrary: s k)
  case Nil
  then show ?case by simp
next
  case (Cons u us)
  from Cons.prems obtain k' where k: "k = Suc k'"
    by (cases k) auto
  with Cons.prems have p: "pending (process_url env u s) = Some k'" and le: "length us \<le> k'"
    by (simp_all add: journal_process_url)
  from Cons.IH [OF p le] Cons.prems k show ?case
    by (simp add: journal_process_url file_content_append)
qed

lemma file_process_urls_early:
  "pending s = Some k \<Longrightarrow> k < length us \<Longrightarrow>
     file_content c (journal (process_urls env us s)) = concat (drop k (run_payloads env us s))
     \<and> pending (process_urls env us s) = None"
proof (induction us arbitrary: s k c)
  case Nil
  then show ?case by simp
next
  case (Cons u us)
  show ?case
  proof (cases k)
    case 0
    with Cons.prems have p: "pending (process_url env u s) = None"
      by (simp add: journal_process_url)
    from file_process_urls_none [OF p, where c = c and us = us] 0 Cons.prems show ?thesis
      by (simp add: journal_process_url file_content_append)
  next
    case (Suc k')
    with Cons.prems have p: "pending (process_url env u s) = Some k'" and lt: "k' < length us"
      by (simp_all add: journal_process_url)
    from Cons.IH [OF p lt, where c = c] Suc show ?thesis
      by simp
  qed
qed

text \<open>
  C8. Whenever the truncation takes effect, a run of \<open>parseUrlFile\<close> appends one payload
  per URL; apart from the truncation, its journal is: begin the first URL, append its
  payload, begin the second, append its payload, and so on in the order of the input,
  so each payload is appended before the next URL begins; payload \<open>i\<close> is the result of
  URL \<open>i\<close>, computed in the state the \<open>i\<close> URLs before it have left; and the file holds,
  in that order, the payloads appended after the truncation took effect.
\<close>

theorem parseUrlFile_in_order:
  "length (drop (length (appended s)) (appended (parseUrlFile env lands content s))) =
     length (input_urls content)
   \<and> filter (\<lambda>e. e \<noteq> Truncate) (journal (parseUrlFile env lands content s)) =
       filter (\<lambda>e. e \<noteq> Truncate) (journal s) @
       interleave (input_urls content)
         (drop (length (appended s)) (appended (parseUrlFile env lands content s)))
   \<and> (\<forall>i < length (input_urls content).
        drop (length (appended s)) (appended (parseUrlFile env lands content s)) ! i =
          fst (calculateMetricsForRepo env (input_urls content ! i)
                (process_urls env (take i (input_urls content)) (writeFile_empty lands s))) @
          ''\<newline>'')
   \<and> file_content c (journal (parseUrlFile env lands content s)) =
       concat (drop (min lands (length (input_urls content)))
         (drop (length (appended s)) (appended (parseUrlFile env lands content s))))"
proof -
  let ?urls = "input_urls content"
  let ?s0 = "writeFile_empty lands s"
  let ?loop = "process_urls env ?urls ?s0"
  let ?ps = "run_payloads env ?urls ?s0"
  have s0: "journal ?s0 = journal s" "pending ?s0 = Some lands" "appended ?s0 = appended s"
    by (simp_all add: writeFile_empty_def appended_def)
  have done_payloads: "appended (parseUrlFile env lands content s) = appended ?loop"
    by (simp add: parseUrlFile_def writeFile_done_def appended_def payloads_append
        split: option.splits)
  then have ps: "drop (length (appended s)) (appended (parseUrlFile env lands content s)) = ?ps"
    by (simp add: appended_process_urls s0)
  have done_journal: "filter (\<lambda>e. e \<noteq> Truncate) (journal (parseUrlFile env lands content s)) =
      filter (\<lambda>e. e \<noteq> Truncate) (journal ?loop)"
    by (simp add: parseUrlFile_def writeFile_done_def split: option.splits)
  have order: "filter (\<lambda>e. e \<noteq> Truncate) (journal (parseUrlFile env lands content s)) =
      filter (\<lambda>e. e \<noteq> Truncate) (journal s) @ interleave ?urls ?ps"
    by (simp add: done_journal journal_process_urls s0)
  have each: "\<forall>i < length ?urls. ?ps ! i =
      fst (calculateMetricsForRepo env (?urls ! i) (process_urls env (take i ?urls) ?s0)) @
      ''\<newline>''"
    by (simp add: run_payloads_nth)
  have content_eq: "file_content c (journal (parseUrlFile env lands content s)) =
      concat (drop (min lands (length ?urls)) ?ps)"
  proof (cases "lands < length ?urls")
    case True
    from file_process_urls_early [OF s0(2) True, where c = c and env = env] True show ?thesis
      by (simp add: parseUrlFile_def writeFile_done_def min_def)
  next
    case False
    then have le: "length ?urls \<le> lands"
      by simp
    from file_process_urls_late [OF s0(2) le, where c = c and env = env] le show ?thesis
      by (simp add: parseUrlFile_def writeFile_done_def file_content_append
          length_run_payloads min_def)
  qed
  from order each content_eq show ?thesis
    unfolding ps by (simp add: length_run_payloads)
qed


theorem parseUrlFile_in_order_witness:
  "length (appended (parseUrlFile scenario_env 1
      ''not-a-url\<newline>https://github.com/octocat/Hello-World\<newline>'' start)) = 2
   \<and> filter (\<lambda>e. e \<noteq> Truncate) (journal (parseUrlFile scenario_env 1
      ''not-a-url\<newline>https://github.com/octocat/Hello-World\<newline>'' start)) =
     [Begin ''not-a-url'', Append ''Invalid URL: not-a-url\<newline>'',
      Begin ''https://github.com/octocat/Hello-World'',
      Append (appended (parseUrlFile scenario_env 1
        ''not-a-url\<newline>https://github.com/octocat/Hello-World\<newline>'' start) ! 1)]
   \<and> file_content ''old content'' (journal (parseUrlFile scenario_env 1
      ''not-a-url\<newline>https://github.com/octocat/Hello-World\<newline>'' start)) =
     appended (parseUrlFile scenario_env 1
        ''not-a-url\<newline>https://github.com/octocat/Hello-World\<newline>'' start) ! 1"
proof -
  let ?content = "''not-a-url\<newline>https://github.com/octocat/Hello-World\<newline>''"
  let ?ps = "appended (parseUrlFile scenario_env 1 ?content start)"
  have urls: "input_urls ?content = [''not-a-url'', ''https://github.com/octocat/Hello-World'']"
    by (simp add: input_urls_def)
  have none: "parseGithubUrl ''not-a-url'' = None"
    by code_simp
  have first: "fst (calculateMetricsForRepo scenario_env ''not-a-url''
      (writeFile_empty 1 start)) = ''Invalid URL: not-a-url''"
    by (simp add: calculateMetricsForRepo_def scenario_env_def none)
  have empty: "appended start = []" "journal start = []"
    by (simp_all add: appended_def start_def)
  note inst = parseUrlFile_in_order [of start scenario_env 1 ?content "''old content''"]
  from inst have len: "length ?ps = 2"
    by (simp add: urls empty)
  then obtain p0 p1 where ps: "?ps = [p0, p1]"
    by (cases ?ps; cases "tl ?ps") auto
  from inst have "?ps ! 0 = fst (calculateMetricsForRepo scenario_env ''not-a-url''
      (writeFile_empty 1 start)) @ ''\<newline>''"
    by (simp add: urls empty)
  with ps first have p0: "p0 = ''Invalid URL: not-a-url\<newline>''"
    by simp
  from inst len ps p0 show ?thesis
    by (simp add: urls empty)
qed

lemma await_then_Inl:
  "m s = (Inl e, s') \<Longrightarrow> await_then m f s = (Inl e, s')"
  by (simp add: await_then_def)

lemma await_then_Inr:
  "m s = (Inr v, s1) \<Longrightarrow> await_then m f s = f v s1"
  by (simp add: await_then_def)

lemma await_then_InrD:
  assumes "await_then m f s = (Inr r, s')"
  obtains v s1 where "m s = (Inr v, s1)" and "f v s1 = (Inr r, s')"
  using assms by (auto simp: await_then_def split: prod.splits sum.splits)

text \<open>The timer around a collaborator: the clock is read, the collaborator runs in the
  world after that, and on a return the clock is read again.\<close>

lemma functionTimer_lift_io_throws:
  "f (clock_read env (world s)) = (Inl e, w') \<Longrightarrow>
     functionTimer env (lift_io f) s = (Inl e, s\<lparr>world := w'\<rparr>)"
  by (simp add: functionTimer_def lift_io_def clock_read_def case_prod_beta)

lemma functionTimer_lift_io_returns:
  "f (clock_read env (world s)) = (Inr v, w') \<Longrightarrow>
     functionTimer env (lift_io f) s =
       (Inr \<lparr>output' = v, time = fst (now env w') - fst (now env (world s))\<rparr>,
        s\<lparr>world := clock_read env w'\<rparr>)"
  by (simp add: functionTimer_def lift_io_def clock_read_def case_prod_beta)

lemma functionTimer_returns:
  "functionTimer env (returns v) s =
     (Inr \<lparr>output' = v,
        time = fst (now env (clock_read env (world s))) - fst (now env (world s))\<rparr>,
      s\<lparr>world := clock_read env (clock_read env (world s))\<rparr>)"
  by (simp add: functionTimer_def returns_def clock_read_def case_prod_beta)

lemma functionTimer_license_throws:
  "axios_get_license env ow rp (clock_read env (world s)) = (Inl e, w') \<Longrightarrow>
     functionTimer env (fetchRepoLicense env ow rp) s =
       (Inl e, s\<lparr>world := w', console := console s @
          [''ERROR! Failed to retrieve license information for '' @ ow @ ''/'' @ rp @
           '': '' @ e]\<rparr>)"
  by (simp add: functionTimer_def fetchRepoLicense_def clock_read_def case_prod_beta)

lemma functionTimer_license_returns:
  "axios_get_license env ow rp (clock_read env (world s)) = (Inr v, w') \<Longrightarrow>
     functionTimer env (fetchRepoLicense env ow rp) s =
       (Inr \<lparr>output' = v, time = fst (now env w') - fst (now env (world s))\<rparr>,
        s\<lparr>world := clock_read env w'\<rparr>)"
  by (simp add: functionTimer_def fetchRepoLicense_def clock_read_def case_prod_beta)

lemma lift_io_fetch:
  "fetchContributors env ow rp (world s) = (r, w') \<Longrightarrow>
     lift_io (fetchContributors env ow rp) s = (r, s\<lparr>world := w'\<rparr>)"
  by (simp add: lift_io_def)

text \<open>Each of the five collaborators that can throw: its throw is a throw of the
  \<^verbatim>\<open>try\<close> block.\<close>

lemma try_body_fetch_throws:
  assumes "fetchContributors env ow rp (world s) = (Inl e, w1)"
  shows "\<exists>s'. try_body env url ow rp s = (Inl e, s')"
  unfolding try_body_def
  using lift_io_fetch [OF assms] by (simp add: await_then_def)

lemma try_body_rampUp_throws:
  assumes "fetchContributors env ow rp (world s) = (Inr cs, w1)"
    and "calculateRampUp env ow rp (clock_read env (clock_read env (clock_read env w1))) = (Inl e, w2)"
  shows "\<exists>s'. try_body env url ow rp s = (Inl e, s')"
  using assms
  by (simp add: try_body_def await_then_def lift_io_def functionTimer_def returns_def
      fetchRepoLicense_def clock_read_def case_prod_beta)

lemma try_body_license_throws:
  assumes "fetchContributors env ow rp (world s) = (Inr cs, w1)"
    and "calculateRampUp env ow rp (clock_read env (clock_read env (clock_read env w1))) = (Inr ru, w2)"
    and "axios_get_license env ow rp (clock_read env (clock_read env w2)) = (Inl e, w3)"
  shows "\<exists>s'. try_body env url ow rp s = (Inl e, s')"
  using assms
  by (simp add: try_body_def await_then_def lift_io_def functionTimer_def returns_def
      fetchRepoLicense_def clock_read_def case_prod_beta)

lemma try_body_correctness_throws:
  assumes "fetchContributors env ow rp (world s) = (Inr cs, w1)"
    and "calculateRampUp env ow rp (clock_read env (clock_read env (clock_read env w1))) = (Inr ru, w2)"
    and "axios_get_license env ow rp (clock_read env (clock_read env w2)) = (Inr lic, w3)"
    and "calculateCorrectness env ow rp (clock_read env (clock_read env w3)) = (Inl e, w4)"
  shows "\<exists>s'. try_body env url ow rp s = (Inl e, s')"
  using assms
  by (simp add: try_body_def await_then_def lift_io_def functionTimer_def returns_def
      fetchRepoLicense_def clock_read_def case_prod_beta)

lemma try_body_responsive_throws:
  assumes "fetchContributors env ow rp (world s) = (Inr cs, w1)"
    and "calculateRampUp env ow rp (clock_read env (clock_read env (clock_read env w1))) = (Inr ru, w2)"
    and "axios_get_license env ow rp (clock_read env (clock_read env w2)) = (Inr lic, w3)"
    and "calculateCorrectness env ow rp (clock_read env (clock_read env w3)) = (Inr co, w4)"
    and "calculateResponsiveMaintener env ow rp (clock_read env (clock_read env w4)) = (Inl e, w5)"
  shows "\<exists>s'. try_body env url ow rp s = (Inl e, s')"
  using assms
  by (simp add: try_body_def await_then_def lift_io_def functionTimer_def returns_def
      fetchRepoLicense_def clock_read_def case_prod_beta)


text \<open>What a throw of the \<^verbatim>\<open>try\<close> block turns into.\<close>

lemma caught_yields_error_line:
  assumes "parseGithubUrl (getGithubLink env url) = Some \<lparr>owner = ow, repo = rp\<rparr>"
    and "\<exists>s'. try_body env url ow rp s = (Inl e, s')"
  shows "yields_error_line env url rest s ow rp e"
proof -
  from assms(2) obtain s' where t: "try_body env url ow rp s = (Inl e, s')"
    by blast
  with assms(1) have "fst (calculateMetricsForRepo env url s) =
      ''Error calculating Metrics for '' @ ow @ ''/'' @ rp @ '': '' @ e"
    by (simp add: calculateMetricsForRepo_def error_line_def)
  then show ?thesis
    unfolding yields_error_line_def
    by (simp add: calculateMetricsForRepo_keeps_journal appended_process_url)
qed

text \<open>
  C6. For a resolved repository, whichever of the five collaborators is the first to
  throw (the contributors fetch, the ramp-up calculator, the license request, the
  correctness calculator, the responsiveness calculator, each called in the world the
  calls and clock reads before it have left), the result is exactly the error text
  naming owner and repository, followed by the rendering of what was thrown; the call
  leaves the journal alone, the batch appends that one line and goes on with the
  remaining URLs. (\<open>calculateBusFactor\<close> and \<open>calculateNetScore\<close> are arithmetic on
  numbers and throw nothing.)
\<close>

theorem calculateMetricsForRepo_error:
  assumes "parseGithubUrl (getGithubLink env url) = Some \<lparr>owner = ow, repo = rp\<rparr>"
  shows
    "(fetchContributors env ow rp (world s) = (Inl e, w1) \<longrightarrow>
        yields_error_line env url rest s ow rp e)
     \<and> (fetchContributors env ow rp (world s) = (Inr cs, w1) \<and>
        calculateRampUp env ow rp (clock_read env (clock_read env (clock_read env w1))) =
          (Inl e, w2) \<longrightarrow>
        yields_error_line env url rest s ow rp e)
     \<and> (fetchContributors env ow rp (world s) = (Inr cs, w1) \<and>
        calculateRampUp env ow rp (clock_read env (clock_read env (clock_read env w1))) =
          (Inr ru, w2) \<and>
        axios_get_license env ow rp (clock_read env (clock_read env w2)) = (Inl e, w3) \<longrightarrow>
        yields_error_line env url rest s ow rp e)
     \<and> (fetchContributors env ow rp (world s) = (Inr cs, w1) \<and>
        calculateRampUp env ow rp (clock_read env (clock_read env (clock_read env w1))) =
          (Inr ru, w2) \<and>
        axios_get_license env ow rp (clock_read env (clock_read env w2)) = (Inr lic, w3) \<and>
        calculateCorrectness env ow rp (clock_read env (clock_read env w3)) = (Inl e, w4) \<longrightarrow>
        yields_error_line env url rest s ow rp e)
     \<and> (fetchContributors env ow rp (world s) = (Inr cs, w1) \<and>
        calculateRampUp env ow rp (clock_read env (clock_read env (clock_read env w1))) =
          (Inr ru, w2) \<and>
        axios_get_license env ow rp (clock_read env (clock_read env w2)) = (Inr lic, w3) \<and>
        calculateCorrectness env ow rp (clock_read env (clock_read env w3)) = (Inr co, w4) \<and>
        calculateResponsiveMaintener env ow rp (clock_read env (clock_read env w4)) =
          (Inl e, w5) \<longrightarrow>
        yields_error_line env url rest s ow rp e)"
proof (intro conjI impI; (elim conjE)?)
  assume "fetchContributors env ow rp (world s) = (Inl e, w1)"
  then show "yields_error_line env url rest s ow rp e"
    by (intro caught_yields_error_line [OF assms] try_body_fetch_throws)
next
  assume "fetchContributors env ow rp (world s) = (Inr cs, w1)"
    "calculateRampUp env ow rp (clock_read env (clock_read env (clock_read env w1))) = (Inl e, w2)"
  then show "yields_error_line env url rest s ow rp e"
    by (intro caught_yields_error_line [OF assms] try_body_rampUp_throws)
next
  assume "fetchContributors env ow rp (world s) = (Inr cs, w1)"
    "calculateRampUp env ow rp (clock_read env (clock_read env (clock_read env w1))) = (Inr ru, w2)"
    "axios_get_license env ow rp (clock_read env (clock_read env w2)) = (Inl e, w3)"
  then show "yields_error_line env url rest s ow rp e"
    by (intro caught_yields_error_line [OF assms] try_body_license_throws)
next
  assume "fetchContributors env ow rp (world s) = (Inr cs, w1)"
    "calculateRampUp env ow rp (clock_read env (clock_read env (clock_read env w1))) = (Inr ru, w2)"
    "axios_get_license env ow rp (clock_read env (clock_read env w2)) = (Inr lic, w3)"
    "calculateCorrectness env ow rp (clock_read env (clock_read env w3)) = (Inl e, w4)"
  then show "yields_error_line env url rest s ow rp e"
    by (intro caught_yields_error_line [OF assms] try_body_correctness_throws)
next
  assume "fetchContributors env ow rp (world s) = (Inr cs, w1)"
    "calculateRampUp env ow rp (clock_read env (clock_read env (clock_read env w1))) = (Inr ru, w2)"
    "axios_get_license env ow rp (clock_read env (clock_read env w2)) = (Inr lic, w3)"
    "calculateCorrectness env ow rp (clock_read env (clock_read env w3)) = (Inr co, w4)"
    "calculateResponsiveMaintener env ow rp (clock_read env (clock_read env w4)) = (Inl e, w5)"
  then show "yields_error_line env url rest s ow rp e"
    by (intro caught_yields_error_line [OF assms] try_body_responsive_throws)
qed

theorem calculateMetricsForRepo_error_witness:
  "fst (calculateMetricsForRepo failing_env ''https://github.com/octocat/Hello-World'' start) =
     ''Error calculating Metrics for octocat/Hello-World: Error: Request failed with status code 500''
   \<and> appended (process_urls failing_env
        [''https://github.com/octocat/Hello-World'', ''not-a-url''] start) =
       [''Error calculating Metrics for octocat/Hello-World: Error: Request failed with status code 500\<newline>'',
        ''Invalid URL: not-a-url\<newline>'']
   \<and> fst (calculateMetricsForRepo license_failing_env ''https://github.com/octocat/Hello-World''
        start) =
     ''Error calculating Metrics for octocat/Hello-World: AxiosError: Request failed with status code 404''
   \<and> appended (process_url license_failing_env ''https://github.com/octocat/Hello-World'' start) =
       [''Error calculating Metrics for octocat/Hello-World: AxiosError: Request failed with status code 404\<newline>'']"
proof -
  let ?url = "''https://github.com/octocat/Hello-World''"
  let ?ri = "\<lparr>owner = ''octocat'', repo = ''Hello-World''\<rparr>"
  have parsed: "parseGithubUrl ?url = Some ?ri"
    by code_simp
  have parse1: "parseGithubUrl (getGithubLink failing_env ?url) = Some ?ri"
    by (simp add: failing_env_def scenario_env_def parsed)
  have parse2: "parseGithubUrl (getGithubLink license_failing_env ?url) = Some ?ri"
    by (simp add: license_failing_env_def scenario_env_def parsed)
  have fetch1: "fetchContributors failing_env ''octocat'' ''Hello-World'' (world start) =
      (Inl ''Error: Request failed with status code 500'', 1)"
    by (simp add: failing_env_def start_def)
  have fetch2: "fetchContributors license_failing_env ''octocat'' ''Hello-World'' (world start) =
      (Inr octocat_contributors, 1)"
    by (simp add: license_failing_env_def scenario_env_def start_def)
  have ramp2: "calculateRampUp license_failing_env ''octocat'' ''Hello-World''
      (clock_read license_failing_env (clock_read license_failing_env
        (clock_read license_failing_env 1))) = (Inr (1 / 2), 2)"
    by (simp add: license_failing_env_def scenario_env_def clock_read_def)
  have license2: "axios_get_license license_failing_env ''octocat'' ''Hello-World''
      (clock_read license_failing_env (clock_read license_failing_env 2)) =
      (Inl ''AxiosError: Request failed with status code 404'', 3)"
    by (simp add: license_failing_env_def scenario_env_def clock_read_def)
  have none: "parseGithubUrl ''not-a-url'' = None"
    by code_simp
  have after: "\<And>s. appended (process_urls failing_env [''not-a-url''] s) =
      appended s @ [''Invalid URL: not-a-url\<newline>'']"
    by (simp add: appended_process_url calculateMetricsForRepo_def failing_env_def
        scenario_env_def none)
  have empty: "appended start = []"
    by (simp add: appended_def start_def)
  from calculateMetricsForRepo_error [OF parse1, where s = start and rest = "[''not-a-url'']"
      and e = "''Error: Request failed with status code 500''" and ?w1.0 = 1] fetch1
  have one: "yields_error_line failing_env ?url [''not-a-url''] start ''octocat'' ''Hello-World''
      ''Error: Request failed with status code 500''"
    by blast
  from calculateMetricsForRepo_error [OF parse2, where s = start and rest = "[]"
      and e = "''AxiosError: Request failed with status code 404''" and ?w1.0 = 1
      and cs = octocat_contributors and ru = "1 / 2" and ?w2.0 = 2 and ?w3.0 = 3]
    fetch2 ramp2 license2
  have two: "yields_error_line license_failing_env ?url [] start ''octocat'' ''Hello-World''
      ''AxiosError: Request failed with status code 404''"
    by blast
  from one two after empty show ?thesis
    by (simp add: yields_error_line_def)
qed

text \<open>
  C7. When the resolver does not match the (normalised) URL, \<open>calculateMetricsForRepo\<close>
  returns the text \<^verbatim>\<open>Invalid URL: \<close> followed by that URL and changes nothing; the
  batch logs and appends that line and goes on with the remaining URLs.
\<close>

theorem calculateMetricsForRepo_invalid_url:
  assumes "parseGithubUrl (getGithubLink env url) = None"
  shows "calculateMetricsForRepo env url s = (''Invalid URL: '' @ getGithubLink env url, s)
    \<and> process_urls env (url # rest) s =
        process_urls env rest
          (appendFileSync (''Invalid URL: '' @ getGithubLink env url @ ''\<newline>'')
             (s\<lparr>journal := journal s @ [Begin url],
                console := console s @ [''Invalid URL: '' @ getGithubLink env url]\<rparr>))
    \<and> appended (process_url env url s) =
        appended s @ [''Invalid URL: '' @ getGithubLink env url @ ''\<newline>'']"
proof -
  from assms have res: "\<And>s. calculateMetricsForRepo env url s =
      (''Invalid URL: '' @ getGithubLink env url, s)"
    by (simp add: calculateMetricsForRepo_def)
  have "appended (process_url env url s) =
      appended s @ [''Invalid URL: '' @ getGithubLink env url @ ''\<newline>'']"
    using appended_process_url [of env url s] by (simp add: res)
  with res show ?thesis
    by (simp add: process_url_def)
qed

theorem calculateMetricsForRepo_invalid_url_witness:
  "parseGithubUrl (getGithubLink scenario_env ''not-a-url'') = None
   \<and> fst (calculateMetricsForRepo scenario_env ''not-a-url'' start) = ''Invalid URL: not-a-url''
   \<and> appended (process_urls scenario_env
        [''not-a-url'', ''https://github.com/octocat/Hello-World''] start) ! 0 =
       ''Invalid URL: not-a-url\<newline>''
   \<and> length (appended (process_urls scenario_env
        [''not-a-url'', ''https://github.com/octocat/Hello-World''] start)) = 2"
proof -
  let ?next = "''https://github.com/octocat/Hello-World''"
  have link: "getGithubLink scenario_env ''not-a-url'' = ''not-a-url''"
    by (simp add: scenario_env_def)
  have none: "parseGithubUrl (getGithubLink scenario_env ''not-a-url'') = None"
    unfolding link by code_simp
  have empty: "appended start = []"
    by (simp add: appended_def start_def)
  note inst = calculateMetricsForRepo_invalid_url [OF none, of start "[?next]"]
  from inst have res: "fst (calculateMetricsForRepo scenario_env ''not-a-url'' start) =
      ''Invalid URL: not-a-url''"
    by (simp add: link)
  from inst have first: "appended (process_url scenario_env ''not-a-url'' start) =
      [''Invalid URL: not-a-url\<newline>'']"
    by (simp add: link empty)
  have "appended (process_urls scenario_env [''not-a-url'', ?next] start) =
      appended (process_url scenario_env ''not-a-url'' start) @
      [fst (calculateMetricsForRepo scenario_env ?next
         (process_url scenario_env ''not-a-url'' start)) @ ''\<newline>'']"
    by (simp add: appended_process_url)
  with first have "appended (process_urls scenario_env [''not-a-url'', ?next] start) ! 0 =
      ''Invalid URL: not-a-url\<newline>''"
    and "length (appended (process_urls scenario_env [''not-a-url'', ?next] start)) = 2"
    by simp_all
  with none res show ?thesis
    by blast
qed

lemma try_body_returns_report:
  assumes "try_body env url ow rp s = (Inr r, s')"
  shows "\<exists>n ru co bf mr lic. r = report env url n ru co bf mr lic"
proof -
  from assms show ?thesis
    unfolding try_body_def
    by (elim await_then_InrD) (simp add: returns_def, blast)
qed

lemma newline_in_report: "CHR ''\<newline>'' \<in> set (report env url n ru co bf mr lic)"
  by (simp add: report_def)

lemma report_newlines:
  "14 \<le> length (filter (\<lambda>c. c = CHR ''\<newline>'') (report env url n ru co bf mr lic))"
  by (simp add: report_def)

text \<open>
  C9. When every step returns, the result is the report and one payload, the report
  followed by a line feed, is appended. The report itself holds at least 14 line feeds
  (those of the template literal): the record is not a single line.
\<close>

theorem report_is_multi_line:
  assumes "parseGithubUrl (getGithubLink env url) = Some ri"
    and "try_body env url (owner ri) (repo ri) s = (Inr r, s')"
  shows "calculateMetricsForRepo env url s = (r, s')
    \<and> appended (process_url env url s) = appended s @ [r @ ''\<newline>'']
    \<and> CHR ''\<newline>'' \<in> set r
    \<and> 14 \<le> length (filter (\<lambda>c. c = CHR ''\<newline>'') r)"
proof -
  from assms have res: "calculateMetricsForRepo env url s = (r, s')"
    by (simp add: calculateMetricsForRepo_def)
  from try_body_returns_report [OF assms(2)] obtain n ru co bf mr lic
    where r: "r = report env url n ru co bf mr lic"
    by blast
  from res have "appended (process_url env url s) = appended s @ [r @ ''\<newline>'']"
    using appended_process_url [of env url s] by simp
  with res r show ?thesis
    using newline_in_report [of env url n ru co bf mr lic]
      report_newlines [of env url n ru co bf mr lic]
    by simp
qed

theorem report_is_multi_line_witness:
  "parseGithubUrl (getGithubLink scenario_env ''https://github.com/octocat/Hello-World'') =
     Some \<lparr>owner = ''octocat'', repo = ''Hello-World''\<rparr>
   \<and> try_body scenario_env ''https://github.com/octocat/Hello-World'' ''octocat'' ''Hello-World''
       start =
     (Inr (report scenario_env ''https://github.com/octocat/Hello-World''
        \<lparr>output' = 11 / 16, time = 0\<rparr> \<lparr>output' = 1 / 2, time = 1\<rparr>
        \<lparr>output' = 1, time = 1\<rparr> \<lparr>output' = 1, time = 0\<rparr>
        \<lparr>output' = 1 / 4, time = 1\<rparr> \<lparr>output' = ''MIT'', time = 1\<rparr>),
      start\<lparr>world := 5\<rparr>)
   \<and> CHR ''\<newline>'' \<in> set (fst (calculateMetricsForRepo scenario_env
        ''https://github.com/octocat/Hello-World'' start))"
proof -
  let ?url = "''https://github.com/octocat/Hello-World''"
  let ?ri = "\<lparr>owner = ''octocat'', repo = ''Hello-World''\<rparr>"
  let ?r = "report scenario_env ?url
        \<lparr>output' = 11 / 16, time = 0\<rparr> \<lparr>output' = 1 / 2, time = 1\<rparr>
        \<lparr>output' = 1, time = 1\<rparr> \<lparr>output' = 1, time = 0\<rparr>
        \<lparr>output' = 1 / 4, time = 1\<rparr> \<lparr>output' = ''MIT'', time = 1\<rparr>"
  have link: "getGithubLink scenario_env ?url = ?url"
    by (simp add: scenario_env_def)
  have parse: "parseGithubUrl (getGithubLink scenario_env ?url) = Some ?ri"
    unfolding link by code_simp
  have run: "try_body scenario_env ?url ''octocat'' ''Hello-World'' start =
      (Inr ?r, start\<lparr>world := 5\<rparr>)"
    by code_simp
  then have run': "try_body scenario_env ?url (owner ?ri) (repo ?ri) start =
      (Inr ?r, start\<lparr>world := 5\<rparr>)"
    by simp
  from report_is_multi_line [OF parse run'] parse run show ?thesis
    by simp
qed

text \<open>The record the scenario appends, as it stands in the file.\<close>

lemma scenario_report:
  \<open>fst (calculateMetricsForRepo scenario_env ''https://github.com/octocat/Hello-World'' start) =
     ''{\<newline>    "URL": "https://github.com/octocat/Hello-World", \<newline>    "NetScore": "0.6875", \<newline>    "NetScore_Latency": 0, \<newline>    "RampUp": 0.5, \<newline>    "RampUp_Latency": 1, \<newline>    "Correctness": 1, \<newline>    "Correctness_Latency": 1, \<newline>    "BusFactor": 1, \<newline>    "BusFactor_Latency": 0, \<newline>    "ResponsiveMaintainer": 0.25, \<newline>    "ResponsiveMaintainer_Latency": 1, \<newline>    "License": "MIT", \<newline>    "License_Latency": 1\<newline>}''\<close>
  by code_simp

text \<open>
  A truncation that takes effect after the first append erases the first record: of two
  URLs, the file holds the record of the second only.
\<close>

lemma first_record_lost:
  "file_content c (journal (parseUrlFile scenario_env 1
      ''not-a-url\<newline>https://github.com/octocat/Hello-World\<newline>'' start)) =
   fst (calculateMetricsForRepo scenario_env ''https://github.com/octocat/Hello-World''
     (process_url scenario_env ''not-a-url'' (writeFile_empty 1 start))) @ ''\<newline>''"
proof -
  let ?content = "''not-a-url\<newline>https://github.com/octocat/Hello-World\<newline>''"
  let ?s0 = "writeFile_empty 1 start :: nat state"
  have urls: "input_urls ?content = [''not-a-url'', ''https://github.com/octocat/Hello-World'']"
    by (simp add: input_urls_def)
  have p: "pending ?s0 = Some 1"
    by (simp add: writeFile_empty_def)
  from file_process_urls_early [OF p, where us = "input_urls ?content" and c = c
      and env = scenario_env]
  show ?thesis
    by (simp add: urls parseUrlFile_def writeFile_done_def)
qed

end
